theory Spec2Isabelle
  imports Main
begin

section \<open>Python exceptions\<close>

text \<open>
  Every exception the modelled code can raise is a value; a computation that raises
  returns \<open>Inl\<close> of it. The argument is the message.
\<close>

datatype pyerr =
    KeyError string
  | ValueError string
  | TypeError string
  | AttributeError string

section \<open>DictTree (dict\_tree.py)\<close>

subsection \<open>The part of pathlib.PurePosixPath the tree uses\<close>

text \<open>
  \<open>PurePosixPath\<close> belongs to the standard library. A parsed path is its root
  (\<open>''''\<close>, \<open>''/''\<close> or \<open>''//''\<close>) and its components; empty components and
  \<open>''.''\<close> are dropped by the parser.
\<close>

record ppath =
  path_root :: string
  path_tail :: "string list"

datatype pathlike = Str string | Path ppath

fun split_sep :: "string \<Rightarrow> string list" where
  "split_sep [] = [[]]"
| "split_sep (c # cs) =
     (if c = CHR ''/'' then [] # split_sep cs
      else (case split_sep cs of
              [] \<Rightarrow> [[c]]
            | w # ws \<Rightarrow> (c # w) # ws))"

definition splitroot :: "string \<Rightarrow> string" where
  "splitroot p =
     (if take 1 p \<noteq> ''/'' then ''''
      else if take 1 (drop 1 p) \<noteq> ''/'' \<or> take 1 (drop 2 p) = ''/'' then ''/''
      else ''//'')"

definition parse_path :: "string \<Rightarrow> ppath" where
  "parse_path p =
     \<lparr>path_root = splitroot p,
      path_tail = filter (\<lambda>x. x \<noteq> [] \<and> x \<noteq> ''.'') (split_sep p)\<rparr>"

fun PurePosixPath :: "pathlike \<Rightarrow> ppath" where
  "PurePosixPath (Str p) = parse_path p"
| "PurePosixPath (Path p) = p"

definition parts :: "ppath \<Rightarrow> string list" where
  "parts p = (if path_root p = [] then path_tail p else path_root p # path_tail p)"

definition is_absolute :: "ppath \<Rightarrow> bool" where
  "is_absolute p = (path_root p \<noteq> [])"

definition path_parent :: "ppath \<Rightarrow> ppath" where
  "path_parent p = (if path_tail p = [] then p else p\<lparr>path_tail := butlast (path_tail p)\<rparr>)"

definition path_name :: "ppath \<Rightarrow> string" where
  "path_name p = (if path_tail p = [] then [] else last (path_tail p))"

fun join_sep :: "string list \<Rightarrow> string" where
  "join_sep [] = []"
| "join_sep [x] = x"
| "join_sep (x # y # ys) = x @ ''/'' @ join_sep (y # ys)"

definition path_str :: "ppath \<Rightarrow> string" where
  "path_str p =
     (let s = path_root p @ join_sep (path_tail p) in if s = [] then ''.'' else s)"

text \<open>\<open>posixpath.join\<close>: a segment that starts with the separator discards what came before it.\<close>

fun posix_join :: "string \<Rightarrow> string list \<Rightarrow> string" where
  "posix_join a [] = a"
| "posix_join a (b # bs) =
     (if take 1 b = ''/'' then posix_join b bs
      else if a = [] \<or> (a \<noteq> [] \<and> last a = CHR ''/'') then posix_join (a @ b) bs
      else posix_join (a @ ''/'' @ b) bs)"

definition joinpath :: "string \<Rightarrow> string list \<Rightarrow> ppath" where
  "joinpath a segs = parse_path (posix_join a segs)"

definition pardir :: string where
  "pardir = ''..''"

subsection \<open>Nodes and the object store\<close>

text \<open>
  A \<open>DictTree\<close> is a dict with a \<open>_parent\<close> attribute. Nodes are mutable and shared by
  reference, so they live in a store indexed by address; a value held under a key is
  \<open>None\<close>, an opaque leaf, or a reference to a node.
\<close>

type_synonym addr = nat

datatype val = VNone | VInt int | VStr string | VTree addr

record DictTree =
  items :: "string \<rightharpoonup> val"
  parent :: "addr option"

type_synonym store = "DictTree list"

text \<open>\<open>DictTree.__init__\<close> with no arguments.\<close>

definition DictTree_init :: DictTree where
  "DictTree_init = \<lparr>items = Map.empty, parent = None\<rparr>"

text \<open>
  \<open>root\<close>: the loop follows \<open>parent\<close> until it is \<open>None\<close> or the node itself. On a
  cycle of parents it never returns, which is the value \<open>None\<close> here.
\<close>

partial_function (option) root :: "store \<Rightarrow> addr \<Rightarrow> addr option" where
  "root s r =
     (case parent (s ! r) of
        None \<Rightarrow> Some r
      | Some p \<Rightarrow> if p = r then Some r else root s p)"

declare root.simps [code]

text \<open>\<open>dict.get(key, None)\<close>.\<close>

definition dict_get :: "DictTree \<Rightarrow> string \<Rightarrow> val" where
  "dict_get n k = (case items n k of None \<Rightarrow> VNone | Some v \<Rightarrow> v)"

text \<open>\<open>DictTree.__setitem__\<close>: a node stored as a value gets the container as its parent.\<close>

definition setitem :: "store \<Rightarrow> addr \<Rightarrow> string \<Rightarrow> val \<Rightarrow> store" where
  "setitem s self key v =
     (let s1 = (case v of
                  VTree c \<Rightarrow> s[c := (s ! c)\<lparr>parent := Some self\<rparr>]
                | _ \<Rightarrow> s)
      in s1[self := (s1 ! self)\<lparr>items := (items (s1 ! self))(key \<mapsto> v)\<rparr>])"

definition attach :: "store \<Rightarrow> addr \<Rightarrow> string \<Rightarrow> addr \<times> store" where
  "attach s self key =
     (let child = length s;
          s1 = s @ [DictTree_init]
      in (child, setitem s1 self key (VTree child)))"

text \<open>Item assignment \<open>target[key] = v\<close> on an arbitrary value.\<close>

fun assign_item :: "store \<Rightarrow> val \<Rightarrow> string \<Rightarrow> val \<Rightarrow> pyerr + store" where
  "assign_item s (VTree a) key v = Inr (setitem s a key v)"
| "assign_item s VNone key v =
     Inl (TypeError ''NoneType object does not support item assignment'')"
| "assign_item s (VInt i) key v =
     Inl (TypeError ''int object does not support item assignment'')"
| "assign_item s (VStr t) key v =
     Inl (TypeError ''str object does not support item assignment'')"

subsection \<open>Path walking\<close>

text \<open>
  \<open>_walk_path\<close> is a generator that \<open>get_at_path\<close> drains with \<open>list\<close>. The model
  returns the list of yielded values, or the exception that ends the iteration.
  \<open>walk_loop\<close> is the \<open>for i, part in enumerate(path.parts)\<close> loop from index \<open>i\<close>
  on, with the rest of the parts and the current node.

  A leaf factory is \<open>None\<close> when no callable was given, and otherwise what calling it
  gives.
\<close>

type_synonym factory = "(pyerr + val) option"

definition missing_child_msg :: "string list \<Rightarrow> string \<Rightarrow> string" where
  "missing_child_msg prefix part =
     ''Child node at path '' @ path_str (joinpath [] prefix) @
     '' has no child with key '' @ part"

definition leaf_msg :: "string list \<Rightarrow> string" where
  "leaf_msg prefix = ''Node at path '' @ path_str (joinpath [] prefix) @ '' is a leaf''"

fun walk_loop ::
  "store \<Rightarrow> bool \<Rightarrow> factory \<Rightarrow> ppath \<Rightarrow> nat \<Rightarrow> string list \<Rightarrow> val \<Rightarrow> pyerr + val list" where
  "walk_loop s ensure_exists leaf_node_factory path i [] node = Inr []"
| "walk_loop s ensure_exists leaf_node_factory path i (part # rest) node =
     (if part = path_root path then
        walk_loop s ensure_exists leaf_node_factory path (i + 1) rest node
      else if node = VNone then
        (if ensure_exists then
           (if i = length (parts path) - 1 \<and> leaf_node_factory \<noteq> None then
              (case leaf_node_factory of
                 Some (Inl e) \<Rightarrow> Inl e
               | _ \<Rightarrow> Inl (TypeError ''NoneType object does not support item assignment''))
            else Inl (AttributeError ''NoneType object has no attribute attach''))
         else Inl (KeyError (missing_child_msg (take i (parts path)) part)))
      else
        (case node of
           VTree a \<Rightarrow>
             (let node' = (if part = pardir
                           then (case parent (s ! a) of None \<Rightarrow> VNone | Some p \<Rightarrow> VTree p)
                           else dict_get (s ! a) part)
              in (case walk_loop s ensure_exists leaf_node_factory path (i + 1) rest node' of
                    Inl e \<Rightarrow> Inl e
                  | Inr ys \<Rightarrow> Inr (node' # ys)))
         | _ \<Rightarrow> Inl (ValueError (leaf_msg (take (i + 1) (parts path))))))"

definition walk_path ::
  "store \<Rightarrow> addr \<Rightarrow> pathlike \<Rightarrow> bool \<Rightarrow> factory \<Rightarrow> (pyerr + val list) option" where
  "walk_path s self path ensure_exists leaf_node_factory =
     (let p = PurePosixPath path in
      case (if \<not> is_absolute p then Some self else root s self) of
        None \<Rightarrow> None
      | Some start \<Rightarrow>
          Some (case walk_loop s ensure_exists leaf_node_factory p 0 (parts p) (VTree start) of
                  Inl e \<Rightarrow> Inl e
                | Inr ys \<Rightarrow> Inr (VTree start # ys)))"

text \<open>
  \<open>get_at_path\<close> calls \<open>self._walk_path(path)\<close>: its own \<open>ensure_exists\<close> is not passed
  on, so the walk runs with the default \<open>False\<close> and no leaf factory.
\<close>

definition get_at_path :: "store \<Rightarrow> addr \<Rightarrow> pathlike \<Rightarrow> bool \<Rightarrow> (pyerr + val) option" where
  "get_at_path s self path ensure_exists =
     (case walk_path s self path False None of
        None \<Rightarrow> None
      | Some (Inl e) \<Rightarrow> Some (Inl e)
      | Some (Inr ys) \<Rightarrow> Some (Inr (last ys)))"

definition set_at_path ::
  "store \<Rightarrow> addr \<Rightarrow> string \<Rightarrow> val \<Rightarrow> bool \<Rightarrow> (pyerr + store) option" where
  "set_at_path s self path v ensure_parents_exist =
     (let p = PurePosixPath (Str path) in
      case get_at_path s self (Path (path_parent p)) ensure_parents_exist of
        None \<Rightarrow> None
      | Some (Inl e) \<Rightarrow> Some (Inl e)
      | Some (Inr par) \<Rightarrow> Some (assign_item s par (path_name p) v))"

section \<open>Monads (monad/monad\_base.py, maybe.py, state\_monad.py, \_\_init\_\_.py)\<close>

subsection \<open>Values, instances and the interpreter state\<close>

text \<open>
  The classes of the hierarchy that can be instantiated. \<open>DictStateMonad\<close> is the
  subclass of \<open>ContextMonad\<close> that sets \<open>ContextType\<close>.
\<close>

datatype klass = MaybeCls | ContextMonadCls | DictStateMonadCls

fun issubclass :: "klass \<Rightarrow> klass \<Rightarrow> bool" where
  "issubclass DictStateMonadCls ContextMonadCls = True"
| "issubclass c d = (c = d)"

text \<open>
  Python values. \<open>PObject n\<close> is a bare \<open>object()\<close>, known by its identity \<open>n\<close>;
  \<open>PRef a\<close> is a reference to a monad instance in the heap. Callables are data too,
  since they are stored as payloads: \<open>PPrim k\<close> is the \<open>k\<close>-th function of the caller
  (interpreted by the environment), \<open>PCallWith\<close> is \<open>call_with\<close>, \<open>PCaller x\<close> the
  closure \<open>caller\<close> that \<open>call_with(x)\<close> returns, \<open>PComposed fs\<close> the closure
  \<open>composed\<close> that \<open>compose_unary(*fs)\<close> returns, \<open>PUnit c\<close> the bound class method
  \<open>c.unit\<close> and \<open>PBoundBind a\<close> the bound method \<open>bind\<close> of the instance at \<open>a\<close>.
  All calls are unary, as in the code that is modelled.
\<close>

datatype pyval =
    PNone
  | PInt int
  | PStr string
  | PObject nat
  | PRef addr
  | PPrim nat
  | PCallWith
  | PCaller pyval
  | PComposed "pyval list"
  | PUnit klass
  | PBoundBind addr

text \<open>
  An instance has its class and the attributes \<open>__init__\<close> sets: \<open>_value\<close> for
  \<open>Maybe\<close>, \<open>_value\<close> and \<open>_state\<close> for \<open>ContextMonad\<close>. The state is an element of
  some Monoid \<open>'s\<close>.
\<close>

record 's pyinst =
  inst_class :: klass
  inst_value :: pyval
  inst_state :: "'s option"

text \<open>
  The interpreter state: the heap of instances, the identity the next bare object gets
  (\<open>Maybe._Nothing\<close>, made when the class is, is object 0), and the log of the calls
  made to the caller's functions.
\<close>

record 's pystate =
  heap :: "'s pyinst list"
  next_object :: nat
  calls :: "(nat \<times> pyval) list"

text \<open>
  What the interpreter is given: the caller's functions, which may raise, allocate and
  mutate, and the \<open>__add__\<close> of the Monoid in use. A state is an immutable value of
  \<open>'s\<close>: the Monoids covered are those that, like \<open>DictState\<close> and as the \<open>Monoid\<close>
  base class declares them, define \<open>__add__\<close> and no \<open>__iadd__\<close>, so that \<open>+=\<close> on a
  state builds the sum and rebinds the attribute, and no state object is ever changed.
\<close>

record 's world =
  prims :: "nat \<Rightarrow> pyval \<Rightarrow> 's pyinst list \<Rightarrow> pyerr + pyval \<times> 's pyinst list"
  state_add :: "'s \<Rightarrow> 's \<Rightarrow> pyerr + 's"

text \<open>
  A computation returns a value and the new state, raises (\<open>Some (Inl e)\<close>), or does
  not return (\<open>None\<close>).
\<close>

type_synonym ('s, 'a) res = "(pyerr + 'a \<times> 's pystate) option"

fun then_do :: "('e + 'a) option \<Rightarrow> ('a \<Rightarrow> ('e + 'b) option) \<Rightarrow> ('e + 'b) option" where
  "then_do None k = None"
| "then_do (Some (Inl e)) k = Some (Inl e)"
| "then_do (Some (Inr x)) k = k x"

definition isinstance :: "'s pyinst list \<Rightarrow> pyval \<Rightarrow> klass \<Rightarrow> bool" where
  "isinstance h v c = (case v of PRef a \<Rightarrow> issubclass (inst_class (h ! a)) c | _ \<Rightarrow> False)"

definition new_instance :: "'s pyinst \<Rightarrow> 's pystate \<Rightarrow> addr \<times> 's pystate" where
  "new_instance i s = (length (heap s), s\<lparr>heap := heap s @ [i]\<rparr>)"

text \<open>
  \<open>copy.copy\<close>: an instance gives a new instance with the same attributes (a shallow
  copy: the payload and the state of the copy are those of the original, not copies of
  them), a bare object gives a new bare object, and numbers, strings, \<open>None\<close> and
  callables are returned as they are. The copy and the original share their state
  object; as no state is changed in place, the record holds the state's value.
\<close>

definition copy_copy :: "pyval \<Rightarrow> 's pystate \<Rightarrow> pyval \<times> 's pystate" where
  "copy_copy v s =
     (case v of
        PRef a \<Rightarrow> (let (r, s1) = new_instance (heap s ! a) s in (PRef r, s1))
      | PObject n \<Rightarrow> (PObject (next_object s), s\<lparr>next_object := next_object s + 1\<rparr>)
      | _ \<Rightarrow> (v, s))"

subsection \<open>Monoid states (state\_monad.py)\<close>

text \<open>
  \<open>DictState.__add__\<close> is \<open>dict.__or__\<close>: a new dict with the keys of both, the right
  operand's value where both have the key. Neither operand is changed. The result is a
  plain \<open>dict\<close>, which has no \<open>__add__\<close>.
\<close>

datatype dstate = DictState "string \<rightharpoonup> pyval" | Dict "string \<rightharpoonup> pyval"

fun mapping_of :: "dstate \<Rightarrow> (string \<rightharpoonup> pyval)" where
  "mapping_of (DictState m) = m"
| "mapping_of (Dict m) = m"

definition dict_or :: "(string \<rightharpoonup> pyval) \<Rightarrow> (string \<rightharpoonup> pyval) \<Rightarrow> (string \<rightharpoonup> pyval)" where
  "dict_or a b = (\<lambda>k. case b k of None \<Rightarrow> a k | Some v \<Rightarrow> Some v)"

fun DictState_add :: "dstate \<Rightarrow> dstate \<Rightarrow> pyerr + dstate" where
  "DictState_add (DictState a) other = Inr (Dict (dict_or a (mapping_of other)))"
| "DictState_add (Dict a) other = Inl (TypeError ''unsupported operand type(s) for +='')"

subsection \<open>Maybe (maybe.py)\<close>

definition Maybe_Nothing_sentinel :: pyval where
  "Maybe_Nothing_sentinel = PObject 0"

text \<open>\<open>Maybe.__init__\<close>.\<close>

definition Maybe_init :: "pyval \<Rightarrow> 's pystate \<Rightarrow> addr \<times> 's pystate" where
  "Maybe_init v s =
     new_instance \<lparr>inst_class = MaybeCls, inst_value = v, inst_state = None\<rparr> s"

definition is_nothing :: "'s pyinst list \<Rightarrow> addr \<Rightarrow> bool" where
  "is_nothing h self = (inst_value (h ! self) = Maybe_Nothing_sentinel)"

text \<open>
  \<open>Maybe._flatten_cls\<close>: while the payload is an instance of \<open>cls\<close>, the payload's
  payload replaces it. The loop does not end on a cycle of payloads.
\<close>

partial_function (option) Maybe_flatten_cls ::
  "klass \<Rightarrow> addr \<Rightarrow> 's pyinst list \<Rightarrow> 's pyinst list option" where
  "Maybe_flatten_cls c i h =
     (case inst_value (h ! i) of
        PRef b \<Rightarrow>
          if issubclass (inst_class (h ! b)) c
          then Maybe_flatten_cls c i (h[i := (h ! i)\<lparr>inst_value := inst_value (h ! b)\<rparr>])
          else Some h
      | _ \<Rightarrow> Some h)"

declare Maybe_flatten_cls.simps [code]

text \<open>\<open>Monad.flatten\<close> on a \<open>Maybe\<close>: \<open>_flatten_cls\<close> on the instance, which is returned.\<close>

definition Maybe_flatten :: "addr \<Rightarrow> 's pystate \<Rightarrow> ('s, pyval) res" where
  "Maybe_flatten self s =
     (case Maybe_flatten_cls (inst_class (heap s ! self)) self (heap s) of
        None \<Rightarrow> None
      | Some h \<Rightarrow> Some (Inr (PRef self, s\<lparr>heap := h\<rparr>)))"

definition Maybe_unit :: "pyval \<Rightarrow> 's pystate \<Rightarrow> ('s, pyval) res" where
  "Maybe_unit v s =
     (case (isinstance (heap s) v MaybeCls, v) of
        (True, PRef a) \<Rightarrow>
          (let (c, s1) = copy_copy (inst_value (heap s ! a)) s;
               (r, s2) = Maybe_init c s1
           in Maybe_flatten r s2)
      | _ \<Rightarrow> (let (r, s1) = Maybe_init v s in Some (Inr (PRef r, s1))))"

definition Maybe_Nothing :: "'s pystate \<Rightarrow> ('s, pyval) res" where
  "Maybe_Nothing s = Maybe_unit Maybe_Nothing_sentinel s"

text \<open>The property \<open>Maybe.value\<close>.\<close>

definition Maybe_value :: "addr \<Rightarrow> 's pystate \<Rightarrow> ('s, pyval) res" where
  "Maybe_value self s =
     (if \<not> is_nothing (heap s) self then Some (Inr (inst_value (heap s ! self), s))
      else Maybe_Nothing s)"

text \<open>The module-level \<open>Just\<close> and \<open>Nothing\<close>.\<close>

definition Just :: "pyval \<Rightarrow> 's pystate \<Rightarrow> ('s, pyval) res" where
  "Just v s = (let (r, s1) = Maybe_init v s in Some (Inr (PRef r, s1)))"

definition Nothing :: "'s pystate \<Rightarrow> ('s, pyval) res" where
  "Nothing s = Maybe_Nothing s"

subsection \<open>Attribute lookup\<close>

text \<open>
  \<open>instance.value\<close>: \<open>Maybe\<close> defines the property; \<open>ContextMonad\<close> and the base
  classes define no attribute of that name, and \<open>__init__\<close> sets \<open>_value\<close>.
  \<open>instance.state\<close>: no class defines it; \<open>ContextMonad.__init__\<close> sets \<open>_state\<close>.
\<close>

definition getattr_value :: "addr \<Rightarrow> 's pystate \<Rightarrow> ('s, pyval) res" where
  "getattr_value a s =
     (if issubclass (inst_class (heap s ! a)) MaybeCls then Maybe_value a s
      else Some (Inl (AttributeError ''value'')))"

definition getattr_state :: "addr \<Rightarrow> 's pystate \<Rightarrow> ('s, 's) res" where
  "getattr_state a s = Some (Inl (AttributeError ''state''))"

subsection \<open>fmap\<close>

text \<open>
  The functions below that call a Python callable take the interpreter's \<open>call\<close> as
  the argument \<open>callf\<close>; \<open>call\<close> itself is defined after them.
\<close>

definition Maybe_fmap_cls ::
  "(pyval \<Rightarrow> pyval \<Rightarrow> 's pystate \<Rightarrow> ('s, pyval) res) \<Rightarrow> pyval \<Rightarrow> addr \<Rightarrow> 's pystate
     \<Rightarrow> ('s, pyval) res" where
  "Maybe_fmap_cls callf func inst s =
     (if is_nothing (heap s) inst then Maybe_Nothing s
      else
        then_do (getattr_value inst s) (\<lambda>(v, s1).
        then_do (callf func v s1) (\<lambda>(y, s2).
          let (r, s3) = Maybe_init y s2 in Some (Inr (PRef r, s3)))))"

text \<open>\<open>ContextMonad.__init__\<close>, with the class that is instantiated.\<close>

definition ContextMonad_init :: "klass \<Rightarrow> pyval \<Rightarrow> 's \<Rightarrow> 's pystate \<Rightarrow> addr \<times> 's pystate" where
  "ContextMonad_init c v st s =
     new_instance \<lparr>inst_class = c, inst_value = v, inst_state = Some st\<rparr> s"

definition ContextMonad_fmap_cls ::
  "(pyval \<Rightarrow> pyval \<Rightarrow> 's pystate \<Rightarrow> ('s, pyval) res) \<Rightarrow> klass \<Rightarrow> pyval \<Rightarrow> addr \<Rightarrow> 's pystate
     \<Rightarrow> ('s, pyval) res" where
  "ContextMonad_fmap_cls callf c func inst s =
     then_do (getattr_value inst s) (\<lambda>(v, s1).
     then_do (callf func v s1) (\<lambda>(y, s2).
     then_do (getattr_state inst s2) (\<lambda>(st, s3).
       let (r, s4) = ContextMonad_init c y st s3 in Some (Inr (PRef r, s4)))))"

text \<open>\<open>Functor.fmap\<close>: \<open>self._fmap_cls(func, self)\<close>, found through the class of \<open>self\<close>.\<close>

definition Functor_fmap ::
  "(pyval \<Rightarrow> pyval \<Rightarrow> 's pystate \<Rightarrow> ('s, pyval) res) \<Rightarrow> addr \<Rightarrow> pyval \<Rightarrow> 's pystate
     \<Rightarrow> ('s, pyval) res" where
  "Functor_fmap callf self func s =
     (case inst_class (heap s ! self) of
        MaybeCls \<Rightarrow> Maybe_fmap_cls callf func self s
      | c \<Rightarrow> ContextMonad_fmap_cls callf c func self s)"

subsection \<open>flatten, flattened, bind\<close>

text \<open>
  \<open>ContextMonad._flatten_cls\<close>: as for \<open>Maybe\<close>, and each payload's state is added to
  the instance's with \<open>+=\<close>, which is the Monoid's \<open>__add__\<close> (no \<open>__iadd__\<close> is
  defined). An instance without \<open>_state\<close> raises.
\<close>

partial_function (option) ContextMonad_flatten_cls ::
  "('s \<Rightarrow> 's \<Rightarrow> pyerr + 's) \<Rightarrow> klass \<Rightarrow> addr \<Rightarrow> 's pyinst list
     \<Rightarrow> (pyerr + 's pyinst list) option" where
  "ContextMonad_flatten_cls add c i h =
     (case inst_value (h ! i) of
        PRef b \<Rightarrow>
          if issubclass (inst_class (h ! b)) c then
            (case (inst_state (h ! i), inst_state (h ! b)) of
               (Some st, Some st') \<Rightarrow>
                 (case add st st' of
                    Inl e \<Rightarrow> Some (Inl e)
                  | Inr st2 \<Rightarrow>
                      ContextMonad_flatten_cls add c i
                        (h[i := (h ! i)\<lparr>inst_value := inst_value (h ! b),
                                        inst_state := Some st2\<rparr>]))
             | _ \<Rightarrow> Some (Inl (AttributeError ''_state'')))
          else Some (Inr h)
      | _ \<Rightarrow> Some (Inr h))"

declare ContextMonad_flatten_cls.simps [code]

text \<open>\<open>cls._flatten_cls(instance)\<close> for a class \<open>cls\<close> and any value.\<close>

definition flatten_cls ::
  "'s world \<Rightarrow> klass \<Rightarrow> pyval \<Rightarrow> 's pystate \<Rightarrow> ('s, unit) res" where
  "flatten_cls w c v s =
     (case v of
        PRef i \<Rightarrow>
          (case c of
             MaybeCls \<Rightarrow>
               (case Maybe_flatten_cls c i (heap s) of
                  None \<Rightarrow> None
                | Some h \<Rightarrow> Some (Inr ((), s\<lparr>heap := h\<rparr>)))
           | _ \<Rightarrow>
               (case ContextMonad_flatten_cls (state_add w) c i (heap s) of
                  None \<Rightarrow> None
                | Some (Inl e) \<Rightarrow> Some (Inl e)
                | Some (Inr h) \<Rightarrow> Some (Inr ((), s\<lparr>heap := h\<rparr>))))
      | _ \<Rightarrow> Some (Inl (AttributeError ''_value'')))"

text \<open>\<open>Monad.flatten\<close>.\<close>

definition Monad_flatten :: "'s world \<Rightarrow> addr \<Rightarrow> 's pystate \<Rightarrow> ('s, pyval) res" where
  "Monad_flatten w self s =
     then_do (flatten_cls w (inst_class (heap s ! self)) (PRef self) s) (\<lambda>(u, s1).
       Some (Inr (PRef self, s1)))"

text \<open>\<open>Monad.flattened\<close>, a class method.\<close>

definition Monad_flattened :: "'s world \<Rightarrow> klass \<Rightarrow> pyval \<Rightarrow> 's pystate \<Rightarrow> ('s, pyval) res" where
  "Monad_flattened w c inst s =
     (let (result, s1) = copy_copy inst s in
      then_do (flatten_cls w c result s1) (\<lambda>(u, s2). Some (Inr (result, s2))))"

text \<open>\<open>Monad.bind\<close>.\<close>

definition Monad_bind ::
  "(pyval \<Rightarrow> pyval \<Rightarrow> 's pystate \<Rightarrow> ('s, pyval) res) \<Rightarrow> 's world \<Rightarrow> addr \<Rightarrow> pyval
     \<Rightarrow> 's pystate \<Rightarrow> ('s, pyval) res" where
  "Monad_bind callf w self func s =
     then_do (Functor_fmap callf self func s) (\<lambda>(result, s1).
     then_do (flatten_cls w (inst_class (heap s1 ! self)) result s1) (\<lambda>(u, s2).
       Some (Inr (result, s2))))"

subsection \<open>unit of the context monads\<close>

text \<open>
  \<open>ContextMonad.unit\<close> evaluates \<open>cls.ContextType.zero()\<close> before it builds the
  instance. \<open>ContextMonad\<close> only annotates \<open>ContextType\<close>; \<open>DictStateMonad\<close> sets it to
  \<open>DictState\<close>, whose \<open>zero\<close> is a class property, so that the call is applied to what
  the property gave.
\<close>

definition ContextMonad_unit :: "klass \<Rightarrow> pyval \<Rightarrow> 's pystate \<Rightarrow> ('s, pyval) res" where
  "ContextMonad_unit c v s =
     (if c = DictStateMonadCls then Some (Inl (TypeError ''object is not callable''))
      else Some (Inl (AttributeError ''ContextType'')))"

definition unit_of :: "klass \<Rightarrow> pyval \<Rightarrow> 's pystate \<Rightarrow> ('s, pyval) res" where
  "unit_of c v s = (case c of MaybeCls \<Rightarrow> Maybe_unit v s | _ \<Rightarrow> ContextMonad_unit c v s)"

subsection \<open>Calling a value (\_\_init\_\_.py and the bound methods)\<close>

text \<open>
  \<open>reduce(lambda res, fn: fn(res), fs, arg)\<close>, the body of \<open>composed\<close> once
  \<open>reversed\<close> has been applied.
\<close>

fun reduce_calls ::
  "(pyval \<Rightarrow> pyval \<Rightarrow> 's pystate \<Rightarrow> ('s, pyval) res) \<Rightarrow> pyval list \<Rightarrow> pyval \<Rightarrow> 's pystate
     \<Rightarrow> ('s, pyval) res" where
  "reduce_calls callf [] x s = Some (Inr (x, s))"
| "reduce_calls callf (f # fs) x s =
     then_do (callf f x s) (\<lambda>(y, s1). reduce_calls callf fs y s1)"

text \<open>
  \<open>call n w f x s\<close> is the call \<open>f(x)\<close> in state \<open>s\<close>. The first argument bounds the
  depth of nested calls: \<open>None\<close> is returned when it is used up. A value that is not
  callable raises \<open>TypeError\<close>.
\<close>

primrec call ::
  "nat \<Rightarrow> 's world \<Rightarrow> pyval \<Rightarrow> pyval \<Rightarrow> 's pystate \<Rightarrow> ('s, pyval) res" where
  "call 0 w f x s = None"
| "call (Suc n) w f x s =
     (case f of
        PPrim k \<Rightarrow>
          (case prims w k x (heap s) of
             Inl e \<Rightarrow> Some (Inl e)
           | Inr (y, h) \<Rightarrow> Some (Inr (y, s\<lparr>heap := h, calls := calls s @ [(k, x)]\<rparr>)))
      | PCallWith \<Rightarrow> Some (Inr (PCaller x, s))
      | PCaller a \<Rightarrow> call n w x a s
      | PComposed fs \<Rightarrow> reduce_calls (call n w) (rev fs) x s
      | PUnit c \<Rightarrow> unit_of c x s
      | PBoundBind m \<Rightarrow> Monad_bind (call n w) w m x s
      | _ \<Rightarrow> Some (Inl (TypeError ''object is not callable'')))"

subsection \<open>apply\<close>

text \<open>\<open>Monad.apply\<close>, a class method.\<close>

definition Monad_apply ::
  "nat \<Rightarrow> 's world \<Rightarrow> klass \<Rightarrow> addr \<Rightarrow> addr \<Rightarrow> 's pystate \<Rightarrow> ('s, pyval) res" where
  "Monad_apply n w c monad_function monad_instance s =
     then_do
       (Functor_fmap (call n w) monad_instance
          (PComposed [PBoundBind monad_function, PComposed [PUnit c, PCallWith]]) s)
       (\<lambda>(r, s1). case r of
                     PRef a \<Rightarrow> Monad_flatten w a s1
                   | _ \<Rightarrow> Some (Inl (AttributeError ''flatten'')))"

subsection \<open>Nesting\<close>

text \<open>
  The shapes of nested monads that the properties below are stated for.
  \<open>nested_payload n c h v\<close>: the value that is left when the instances of the class
  \<open>c\<close> wrapped around \<open>v\<close> are taken off, when there are at most \<open>n\<close> of them and
  every instance on the way is in the heap. It is \<open>None\<close> on a cycle of payloads, for
  every \<open>n\<close>.
\<close>

fun nested_payload :: "nat \<Rightarrow> klass \<Rightarrow> 's pyinst list \<Rightarrow> pyval \<Rightarrow> pyval option" where
  "nested_payload 0 c h v =
     (case v of
        PRef b \<Rightarrow> if b < length h \<and> \<not> issubclass (inst_class (h ! b)) c then Some v else None
      | _ \<Rightarrow> Some v)"
| "nested_payload (Suc n) c h v =
     (case v of
        PRef b \<Rightarrow>
          if b < length h then
            (if issubclass (inst_class (h ! b)) c then nested_payload n c h (inst_value (h ! b))
             else Some v)
          else None
      | _ \<Rightarrow> Some v)"

text \<open>
  \<open>nested_states n c h v\<close>: the states of the instances of \<open>c\<close> wrapped around \<open>v\<close>,
  outermost first, and the value they wrap, when there are at most \<open>n\<close> of them.
  \<open>add_all\<close> adds states to a first one from left to right and stops at the first
  addition that raises.
\<close>

fun nested_states :: "nat \<Rightarrow> klass \<Rightarrow> 's pyinst list \<Rightarrow> pyval \<Rightarrow> ('s list \<times> pyval) option" where
  "nested_states 0 c h v =
     (case v of
        PRef b \<Rightarrow> if b < length h \<and> \<not> issubclass (inst_class (h ! b)) c then Some ([], v) else None
      | _ \<Rightarrow> Some ([], v))"
| "nested_states (Suc n) c h v =
     (case v of
        PRef b \<Rightarrow>
          if b < length h then
            (if issubclass (inst_class (h ! b)) c then
               (case (inst_state (h ! b), nested_states n c h (inst_value (h ! b))) of
                  (Some st, Some (sts, u)) \<Rightarrow> Some (st # sts, u)
                | _ \<Rightarrow> None)
             else Some ([], v))
          else None
      | _ \<Rightarrow> Some ([], v))"

fun add_all :: "('s \<Rightarrow> 's \<Rightarrow> pyerr + 's) \<Rightarrow> 's \<Rightarrow> 's list \<Rightarrow> pyerr + 's" where
  "add_all add st [] = Inr st"
| "add_all add st (t # ts) =
     (case add st t of Inl e \<Rightarrow> Inl e | Inr st2 \<Rightarrow> add_all add st2 ts)"

section \<open>Properties of DictTree\<close>

lemma parse_dotdot: "parse_path ''..'' = \<lparr>path_root = [], path_tail = [''..'']\<rparr>"
  by (simp add: parse_path_def splitroot_def)

text \<open>
  C10. On a node whose parent is \<open>None\<close>, \<open>get_at_path("..")\<close> raises nothing and
  returns \<open>None\<close>: the walk yields the node, then the absent parent, and the last value
  yielded is the result.
\<close>

theorem get_at_path_pardir_of_root:
  assumes "parent (s ! r) = None"
  shows "get_at_path s r (Str ''..'') ensure_exists = Some (Inr VNone)"
  using assms
  by (simp add: get_at_path_def walk_path_def parse_dotdot is_absolute_def parts_def pardir_def)

theorem get_at_path_pardir_of_root_witness:
  "parent ([DictTree_init] ! 0) = None \<and>
   get_at_path [DictTree_init] 0 (Str ''..'') False = Some (Inr VNone)"
proof -
  have h: "parent ([DictTree_init] ! 0) = None"
    by (simp add: DictTree_init_def)
  show ?thesis
    using h get_at_path_pardir_of_root [OF h, of False] by simp
qed

lemma parent_init: "parent DictTree_init = None"
  by (simp add: DictTree_init_def)

lemma items_init: "items DictTree_init k = None"
  by (simp add: DictTree_init_def)

lemma root_init: "root [DictTree_init] 0 = Some 0"
  by (simp add: root.simps parent_init)

lemma parse_a_b: "parse_path ''/a/b'' = \<lparr>path_root = ''/'', path_tail = [''a'', ''b'']\<rparr>"
  by (simp add: parse_path_def splitroot_def)

lemma parse_missing: "parse_path ''/missing'' = \<lparr>path_root = ''/'', path_tail = [''missing'']\<rparr>"
  by (simp add: parse_path_def splitroot_def)

lemma parse_missing_x:
  "parse_path ''/missing/x'' = \<lparr>path_root = ''/'', path_tail = [''missing'', ''x'']\<rparr>"
  by (simp add: parse_path_def splitroot_def)

text \<open>
  C2. \<open>set_at_path("/a/b", v, ensure_parents_exist)\<close> assigns \<open>v\<close> under \<open>b\<close> in
  whatever the root holds under \<open>a\<close>, for either value of \<open>ensure_parents_exist\<close>:
  nothing is created. When the root has no key \<open>a\<close> the target is \<open>None\<close> and the
  assignment raises \<open>TypeError\<close>; so it does on an empty tree with
  \<open>ensure_parents_exist=True\<close>.
\<close>

theorem set_at_path_missing_parent_raises:
  "set_at_path s self ''/a/b'' v ensure_parents_exist =
     (case root s self of
        None \<Rightarrow> None
      | Some r \<Rightarrow> Some (assign_item s (dict_get (s ! r) ''a'') ''b'' v)) \<and>
   assign_item s VNone ''b'' v =
     Inl (TypeError ''NoneType object does not support item assignment'') \<and>
   set_at_path [DictTree_init] 0 ''/a/b'' (VInt 42) True =
     Some (Inl (TypeError ''NoneType object does not support item assignment''))"
proof -
  have g: "set_at_path s self ''/a/b'' v ensure_parents_exist =
     (case root s self of
        None \<Rightarrow> None
      | Some r \<Rightarrow> Some (assign_item s (dict_get (s ! r) ''a'') ''b'' v))" for s self v ensure_parents_exist
    by (cases "dict_get (s ! the (root s self)) ''a''")
       (simp_all add: set_at_path_def path_parent_def path_name_def get_at_path_def walk_path_def
          parse_a_b is_absolute_def parts_def pardir_def Let_def split: option.splits)
  show ?thesis
    by (simp add: g root_init dict_get_def items_init)
qed

text \<open>
  C6. \<open>get_at_path("/missing")\<close> returns what the root holds under \<open>missing\<close>, and
  \<open>None\<close> when it holds nothing: a key missing at the end of the path raises no error.
  A key missing before the end is reported when the next part is reached:
  \<open>get_at_path("/missing/x")\<close> raises \<open>KeyError\<close> with the path up to and including
  the missing key as the prefix and the next part, \<open>x\<close>, as the key.
\<close>

theorem get_at_path_missing_final_key:
  "get_at_path s self (Str ''/missing'') ensure_exists =
     (case root s self of
        None \<Rightarrow> None
      | Some r \<Rightarrow> Some (Inr (dict_get (s ! r) ''missing''))) \<and>
   get_at_path s self (Str ''/missing/x'') ensure_exists =
     (case root s self of
        None \<Rightarrow> None
      | Some r \<Rightarrow>
          (case dict_get (s ! r) ''missing'' of
             VNone \<Rightarrow>
               Some (Inl (KeyError ''Child node at path /missing has no child with key x''))
           | VTree a \<Rightarrow> Some (Inr (dict_get (s ! a) ''x''))
           | _ \<Rightarrow> Some (Inl (ValueError ''Node at path /missing/x is a leaf'')))) \<and>
   get_at_path [DictTree_init] 0 (Str ''/missing'') False = Some (Inr VNone)"
proof -
  have g1: "get_at_path s self (Str ''/missing'') ensure_exists =
     (case root s self of
        None \<Rightarrow> None
      | Some r \<Rightarrow> Some (Inr (dict_get (s ! r) ''missing'')))" for s self ensure_exists
    by (cases "dict_get (s ! the (root s self)) ''missing''")
       (simp_all add: get_at_path_def walk_path_def parse_missing is_absolute_def parts_def
          pardir_def Let_def split: option.splits)
  have g2: "get_at_path s self (Str ''/missing/x'') ensure_exists =
     (case root s self of
        None \<Rightarrow> None
      | Some r \<Rightarrow>
          (case dict_get (s ! r) ''missing'' of
             VNone \<Rightarrow>
               Some (Inl (KeyError ''Child node at path /missing has no child with key x''))
           | VTree a \<Rightarrow> Some (Inr (dict_get (s ! a) ''x''))
           | _ \<Rightarrow> Some (Inl (ValueError ''Node at path /missing/x is a leaf''))))"
  proof (cases "root s self")
    case None
    then show ?thesis
      by (simp add: get_at_path_def walk_path_def parse_missing_x is_absolute_def)
  next
    case (Some r)
    show ?thesis
      by (cases "dict_get (s ! r) ''missing''")
         (simp_all add: Some get_at_path_def walk_path_def parse_missing_x is_absolute_def
            parts_def pardir_def Let_def missing_child_msg_def leaf_msg_def joinpath_def
            path_str_def parse_path_def splitroot_def)
  qed
  show ?thesis
    using g2 by (simp add: g1 root_init dict_get_def items_init)
qed

section \<open>Properties of the monads\<close>

lemma Nothing_eq:
  "Nothing s = Some (Inr (PRef (length (heap s)),
     s\<lparr>heap := heap s @ [\<lparr>inst_class = MaybeCls, inst_value = Maybe_Nothing_sentinel,
                          inst_state = None\<rparr>]\<rparr>))"
  by (simp add: Nothing_def Maybe_Nothing_def Maybe_unit_def isinstance_def
      Maybe_Nothing_sentinel_def Maybe_init_def new_instance_def)

lemma Maybe_fmap_cls_nothing:
  "is_nothing (heap s) m \<Longrightarrow> Maybe_fmap_cls callf f m s = Nothing s"
  by (simp add: Maybe_fmap_cls_def Nothing_def)

text \<open>
  C7. \<open>Nothing().fmap(f)\<close> returns an absent \<open>Maybe\<close> and does not call \<open>f\<close>: the
  result is the same whatever calling a value would do (\<open>callf\<close> is arbitrary, and may
  raise or never return), and the log of calls is unchanged.
\<close>

theorem Nothing_fmap_short_circuits:
  "\<exists>m s1 r s2.
     Nothing s = Some (Inr (PRef m, s1)) \<and>
     Functor_fmap callf m f s1 = Some (Inr (PRef r, s2)) \<and>
     is_nothing (heap s2) r \<and> calls s2 = calls s"
  by (simp add: Nothing_eq Functor_fmap_def Maybe_fmap_cls_nothing is_nothing_def nth_append)

text \<open>
  C8. \<open>.value\<close> raises nothing. On an absent \<open>Maybe\<close> it returns a newly made \<open>Maybe\<close>
  that is absent too; on a present one it returns the payload and changes nothing.
\<close>

theorem Maybe_value_absent_or_present:
  "Maybe_value m s =
     (if is_nothing (heap s) m
      then Some (Inr (PRef (length (heap s)),
             s\<lparr>heap := heap s @ [\<lparr>inst_class = MaybeCls, inst_value = Maybe_Nothing_sentinel,
                                  inst_state = None\<rparr>]\<rparr>))
      else Some (Inr (inst_value (heap s ! m), s))) \<and>
   is_nothing (heap s @ [\<lparr>inst_class = MaybeCls, inst_value = Maybe_Nothing_sentinel,
                           inst_state = None\<rparr>]) (length (heap s))"
  using Nothing_eq [of s] by (simp add: Maybe_value_def Nothing_def is_nothing_def)

text \<open>
  C1. \<open>fmap\<close> on a newly built \<open>ContextMonad\<close> (or \<open>DictStateMonad\<close>) raises
  \<open>AttributeError\<close> for every function, payload and state: \<open>_fmap_cls\<close> reads
  \<open>instance.value\<close>, and the instance only has \<open>_value\<close>.
\<close>

theorem ContextMonad_fmap_raises:
  "Functor_fmap callf (fst (ContextMonad_init ContextMonadCls v st s)) f
       (snd (ContextMonad_init ContextMonadCls v st s)) = Some (Inl (AttributeError ''value'')) \<and>
   Functor_fmap callf (fst (ContextMonad_init DictStateMonadCls v st s)) f
       (snd (ContextMonad_init DictStateMonadCls v st s)) = Some (Inl (AttributeError ''value''))"
  by (simp add: Functor_fmap_def ContextMonad_init_def new_instance_def
      ContextMonad_fmap_cls_def getattr_value_def)

text \<open>
  C3. With \<open>mf = Maybe.unit(f)\<close> for a function \<open>f\<close> of the caller and
  \<open>mv = Maybe.unit(x)\<close> for an integer \<open>x\<close>, in any state, \<open>Maybe.apply(mf, mv)\<close>
  raises \<open>TypeError\<close> in every environment, as soon as three nested calls are allowed:
  \<open>mf.bind\<close> is given the \<open>Maybe\<close> that \<open>cls.unit\<close> made of the closure of
  \<open>call_with\<close>, and \<open>fmap\<close> calls it.
\<close>

theorem Maybe_apply_raises:
  "Maybe_unit (PPrim k) s =
     Some (Inr (PRef (length (heap s)),
       s\<lparr>heap := heap s @ [\<lparr>inst_class = MaybeCls, inst_value = PPrim k, inst_state = None\<rparr>]\<rparr>)) \<and>
   Maybe_unit (PInt x)
       (s\<lparr>heap := heap s @ [\<lparr>inst_class = MaybeCls, inst_value = PPrim k, inst_state = None\<rparr>]\<rparr>) =
     Some (Inr (PRef (Suc (length (heap s))),
       s\<lparr>heap := heap s @ [\<lparr>inst_class = MaybeCls, inst_value = PPrim k, inst_state = None\<rparr>,
                           \<lparr>inst_class = MaybeCls, inst_value = PInt x, inst_state = None\<rparr>]\<rparr>)) \<and>
   Monad_apply (Suc (Suc (Suc n))) w MaybeCls (length (heap s)) (Suc (length (heap s)))
       (s\<lparr>heap := heap s @ [\<lparr>inst_class = MaybeCls, inst_value = PPrim k, inst_state = None\<rparr>,
                           \<lparr>inst_class = MaybeCls, inst_value = PInt x, inst_state = None\<rparr>]\<rparr>) =
     Some (Inl (TypeError ''object is not callable''))"
  by (simp add: Monad_apply_def Functor_fmap_def Maybe_fmap_cls_def is_nothing_def
      Maybe_Nothing_sentinel_def getattr_value_def Maybe_value_def unit_of_def
      Maybe_unit_def isinstance_def Maybe_init_def new_instance_def Monad_bind_def nth_append)

subsection \<open>Flattening a finitely nested value\<close>

lemma nested_payload_Suc:
  "nested_payload n c h v = Some u \<Longrightarrow> nested_payload (Suc n) c h v = Some u"
proof (induction n arbitrary: v)
  case 0
  then show ?case by (cases v) (auto split: if_splits)
next
  case (Suc n)
  then show ?case by (cases v) (auto split: if_splits)
qed

lemma nested_payload_append:
  "nested_payload n c h v = Some u \<Longrightarrow> nested_payload n c (h @ xs) v = Some u"
proof (induction n arbitrary: v)
  case 0
  then show ?case by (cases v) (auto simp: nth_append split: if_splits)
next
  case (Suc n)
  then show ?case by (cases v) (auto simp: nth_append split: if_splits)
qed

lemma nested_payload_not_instance:
  "nested_payload n c h v = Some u \<Longrightarrow> \<not> isinstance h u c"
proof (induction n arbitrary: v)
  case 0
  then show ?case by (cases v) (auto simp: isinstance_def split: if_splits)
next
  case (Suc n)
  then show ?case by (cases v) (auto simp: isinstance_def split: if_splits)
qed

lemma nested_payload_plain:
  "\<forall>a. v \<noteq> PRef a \<Longrightarrow> nested_payload m c h v = Some v"
  by (cases m; cases v) simp_all

text \<open>Replacing the payload of i by the payload of its payload keeps what is wrapped.\<close>

lemma nested_payload_update:
  assumes i: "i < length h" and b: "inst_value (h ! i) = PRef b"
    and sub: "issubclass (inst_class (h ! b)) c"
    and x: "inst_class x = inst_class (h ! i)" "inst_value x = inst_value (h ! b)"
  shows "nested_payload m c h v = Some u \<Longrightarrow> nested_payload m c (h[i := x]) v = Some u"
proof (induction m arbitrary: v rule: less_induct)
  case (less m)
  show ?case
  proof (cases "\<exists>a. v = PRef a")
    case False
    then have nr: "\<forall>a. v \<noteq> PRef a" by simp
    have "nested_payload m c h v = Some v" and "nested_payload m c (h[i := x]) v = Some v"
      by (rule nested_payload_plain [OF nr])+
    with less.prems show ?thesis by simp
  next
    case True
    then obtain a where PRef: "v = PRef a" by blast
    show ?thesis
    proof (cases "a = i")
      case False
      show ?thesis
      proof (cases m)
        case 0
        with less.prems PRef False show ?thesis by (auto split: if_splits)
      next
        case (Suc k)
        with less.prems PRef False less.IH [of k] show ?thesis
          by (auto split: if_splits)
      qed
    next
      case True
      show ?thesis
      proof (cases "issubclass (inst_class (h ! i)) c")
        case False
        with less.prems PRef True i x show ?thesis by (cases m) (auto split: if_splits)
      next
        case sub_i: True
        from less.prems PRef True sub_i i obtain k where m: "m = Suc k"
          and k: "nested_payload k c h (PRef b) = Some u"
          using b by (cases m) (auto split: if_splits)
        from k sub obtain j where kj: "k = Suc j"
          and j: "nested_payload j c h (inst_value (h ! b)) = Some u"
          by (cases k) (auto split: if_splits)
        have "nested_payload j c (h[i := x]) (inst_value (h ! b)) = Some u"
          using less.IH [of j] j m kj by simp
        then have "nested_payload k c (h[i := x]) (inst_value (h ! b)) = Some u"
          using kj nested_payload_Suc by blast
        with PRef True i x sub_i m show ?thesis by simp
      qed
    qed
  qed
qed

lemma Maybe_flatten_cls_eq:
  assumes "i < length h" and "nested_payload n c h (inst_value (h ! i)) = Some u"
  shows "Maybe_flatten_cls c i h = Some (h[i := (h ! i)\<lparr>inst_value := u\<rparr>])"
  using assms
proof (induction n arbitrary: h)
  case 0
  from 0 have "Maybe_flatten_cls c i h = Some h"
    by (subst Maybe_flatten_cls.simps) (auto split: pyval.splits if_splits)
  moreover from 0 have "u = inst_value (h ! i)"
    by (auto split: pyval.splits if_splits)
  ultimately show ?case by simp
next
  case (Suc n)
  show ?case
  proof (cases "\<exists>b. inst_value (h ! i) = PRef b \<and> issubclass (inst_class (h ! b)) c")
    case False
    then have "Maybe_flatten_cls c i h = Some h"
      by (subst Maybe_flatten_cls.simps) (auto split: pyval.splits)
    moreover have "u = inst_value (h ! i)"
      using False Suc.prems(2) by (auto split: pyval.splits if_splits)
    ultimately show ?thesis by simp
  next
    case True
    then obtain b where b: "inst_value (h ! i) = PRef b"
      and sub: "issubclass (inst_class (h ! b)) c" by blast
    define x where "x = (h ! i)\<lparr>inst_value := inst_value (h ! b)\<rparr>"
    define h2 where "h2 = h[i := x]"
    have step: "Maybe_flatten_cls c i h = Maybe_flatten_cls c i h2"
      by (subst Maybe_flatten_cls.simps) (simp add: b sub h2_def x_def)
    have w: "nested_payload n c h (inst_value (h ! b)) = Some u"
      using Suc.prems(2) b sub by (simp split: if_splits)
    have "nested_payload n c h2 (inst_value (h ! b)) = Some u"
      unfolding h2_def
      by (rule nested_payload_update [OF Suc.prems(1) b sub _ _ w]) (simp_all add: x_def)
    moreover have i2: "i < length h2" and hi2: "h2 ! i = x"
      using Suc.prems(1) by (simp_all add: h2_def)
    ultimately have "nested_payload n c h2 (inst_value (h2 ! i)) = Some u"
      by (simp add: x_def)
    from Suc.IH [OF i2 this] have "Maybe_flatten_cls c i h2 = Some (h2[i := (h2 ! i)\<lparr>inst_value := u\<rparr>])" .
    then show ?thesis
      using step by (simp add: hi2) (simp add: h2_def x_def)
  qed
qed

lemma nested_states_append:
  "nested_states n c h v = Some r \<Longrightarrow> nested_states n c (h @ xs) v = Some r"
proof (induction n arbitrary: v r)
  case 0
  then show ?case by (cases v) (auto simp: nth_append split: if_splits)
next
  case (Suc n)
  then show ?case
    by (cases v) (auto simp: nth_append split: if_splits option.splits)
qed

lemma nested_states_fuel:
  "nested_states n c h v = Some r \<Longrightarrow> nested_states m c h v = Some r' \<Longrightarrow> r = r'"
proof (induction n arbitrary: v r r' m)
  case 0
  then show ?case by (cases v; cases m) (auto split: if_splits)
next
  case (Suc n)
  show ?case
  proof (cases m)
    case 0
    with Suc.prems show ?thesis by (cases v) (auto split: if_splits)
  next
    case (Suc k)
    with Suc.prems Suc.IH [of _ _ k] show ?thesis
      by (cases v) (fastforce split: if_splits option.splits)+
  qed
qed

lemma nested_states_update:
  assumes i: "i < length h" and b: "inst_value (h ! i) = PRef b"
    and sub: "issubclass (inst_class (h ! b)) c"
    and x: "inst_class x = inst_class (h ! i)"
    and d: "nested_states k c h (inst_value (h ! b)) = Some (sts', u')"
  shows "nested_states m c h v = Some (ss, w) \<Longrightarrow> length ss \<le> length sts' \<Longrightarrow>
         nested_states m c (h[i := x]) v = Some (ss, w)"
proof (induction m arbitrary: v ss)
  case 0
  then show ?case using i x by (cases v) (auto split: if_splits simp: nth_list_update)
next
  case (Suc m)
  show ?case
  proof (cases v)
    case (PRef a)
    show ?thesis
    proof (cases "a = i")
      case False
      with Suc.prems PRef Suc.IH show ?thesis
        by (fastforce split: if_splits option.splits)
    next
      case True
      show ?thesis
      proof (cases "issubclass (inst_class (h ! i)) c")
        case False
        with Suc.prems PRef True i x show ?thesis by (auto split: if_splits)
      next
        case sub_i: True
        from Suc.prems(1) PRef True sub_i i b obtain st ss1 where
          ss: "ss = st # ss1" and m1: "nested_states m c h (PRef b) = Some (ss1, w)"
          by (auto split: if_splits option.splits)
        from m1 sub obtain m2 st2 ss2 where
          "m = Suc m2" and ss1: "ss1 = st2 # ss2"
          and m2: "nested_states m2 c h (inst_value (h ! b)) = Some (ss2, w)"
          by (cases m) (auto split: if_splits option.splits)
        from nested_states_fuel [OF m2 d] have "ss2 = sts'" by simp
        with ss ss1 Suc.prems(2) show ?thesis by simp
      qed
    qed
  qed (use Suc.prems in auto)
qed

lemma ContextMonad_flatten_cls_chain:
  assumes "i < length h" and "inst_state (h ! i) = Some s0"
    and "nested_states n c h (inst_value (h ! i)) = Some (sts, u)"
  shows "ContextMonad_flatten_cls add c i h =
           Some (case add_all add s0 sts of
                   Inl e \<Rightarrow> Inl e
                 | Inr st \<Rightarrow> Inr (h[i := (h ! i)\<lparr>inst_value := u, inst_state := Some st\<rparr>]))"
  using assms
proof (induction n arbitrary: h s0 sts)
  case 0
  have id: "(h ! i)\<lparr>inst_value := inst_value (h ! i), inst_state := Some s0\<rparr> = h ! i"
    using "0.prems"(2) by (metis pyinst.surjective pyinst.update_convs(2,3))
  from "0.prems"(3) have su: "sts = []" "u = inst_value (h ! i)"
    by (auto split: pyval.splits if_splits)
  from "0.prems"(3) have "ContextMonad_flatten_cls add c i h = Some (Inr h)"
    by (subst ContextMonad_flatten_cls.simps) (auto split: pyval.splits if_splits)
  then show ?case using su id by simp
next
  case (Suc n)
  have id: "(h ! i)\<lparr>inst_value := inst_value (h ! i), inst_state := Some s0\<rparr> = h ! i"
    using Suc.prems(2) by (metis pyinst.surjective pyinst.update_convs(2,3))
  show ?case
  proof (cases "\<exists>b. inst_value (h ! i) = PRef b \<and> issubclass (inst_class (h ! b)) c")
    case False
    with Suc.prems(3) have su: "sts = []" "u = inst_value (h ! i)"
      by (auto split: pyval.splits if_splits)
    from False have "ContextMonad_flatten_cls add c i h = Some (Inr h)"
      by (subst ContextMonad_flatten_cls.simps) (auto split: pyval.splits)
    then show ?thesis using su id by simp
  next
    case True
    then obtain b where b: "inst_value (h ! i) = PRef b"
      and sub: "issubclass (inst_class (h ! b)) c" by blast
    from Suc.prems(3) b sub obtain st' sts' where
      st': "inst_state (h ! b) = Some st'" and sts: "sts = st' # sts'"
      and d: "nested_states n c h (inst_value (h ! b)) = Some (sts', u)"
      by (auto split: if_splits option.splits)
    show ?thesis
    proof (cases "add s0 st'")
      case (Inl e)
      then have "ContextMonad_flatten_cls add c i h = Some (Inl e)"
        by (subst ContextMonad_flatten_cls.simps) (simp add: b sub st' Suc.prems(2))
      then show ?thesis using Inl sts by simp
    next
      case (Inr st2)
      define x where "x = (h ! i)\<lparr>inst_value := inst_value (h ! b), inst_state := Some st2\<rparr>"
      define h2 where "h2 = h[i := x]"
      have step: "ContextMonad_flatten_cls add c i h = ContextMonad_flatten_cls add c i h2"
        by (subst ContextMonad_flatten_cls.simps)
           (simp add: b sub st' Suc.prems(2) Inr h2_def x_def)
      have i2: "i < length h2" and hi2: "h2 ! i = x"
        using Suc.prems(1) by (simp_all add: h2_def)
      have "nested_states n c h2 (inst_value (h ! b)) = Some (sts', u)"
        unfolding h2_def
        by (rule nested_states_update [OF Suc.prems(1) b sub _ d d]) (simp_all add: x_def)
      then have n2: "nested_states n c h2 (inst_value (h2 ! i)) = Some (sts', u)"
        by (simp add: hi2 x_def)
      have s2: "inst_state (h2 ! i) = Some st2"
        by (simp add: hi2 x_def)
      have "ContextMonad_flatten_cls add c i h2 =
              Some (case add_all add st2 sts' of
                      Inl e \<Rightarrow> Inl e
                    | Inr st \<Rightarrow> Inr (h2[i := (h2 ! i)\<lparr>inst_value := u, inst_state := Some st\<rparr>]))"
        by (rule Suc.IH [OF i2 s2 n2])
      moreover have "h2[i := (h2 ! i)\<lparr>inst_value := u, inst_state := Some st\<rparr>] =
                     h[i := (h ! i)\<lparr>inst_value := u, inst_state := Some st\<rparr>]" for st
        by (simp add: hi2) (simp add: h2_def x_def)
      ultimately show ?thesis
        using step Inr sts by (cases "add_all add st2 sts'") simp_all
    qed
  qed
qed

lemma take_nth_eq: "take n xs = ys \<Longrightarrow> i < n \<Longrightarrow> xs ! i = ys ! i"
  by (metis nth_take)

lemma copy_copy_nested:
  assumes "nested_payload k c0 (heap s) p = Some u"
  shows "nested_payload k c0 (heap (snd (copy_copy p s))) (fst (copy_copy p s)) =
           Some (if isinstance (heap s) p c0 then u else fst (copy_copy p s)) \<and>
         take (length (heap s)) (heap (snd (copy_copy p s))) = heap s"
proof (cases p)
  case (PRef b)
  have c: "copy_copy (PRef b) s = (PRef (length (heap s)), s\<lparr>heap := heap s @ [heap s ! b]\<rparr>)"
    by (simp add: copy_copy_def new_instance_def)
  from assms PRef have b: "b < length (heap s)"
    by (cases k) (auto split: if_splits)
  show ?thesis
  proof (cases "issubclass (inst_class (heap s ! b)) c0")
    case True
    with assms PRef b obtain j where k: "k = Suc j"
      and j: "nested_payload j c0 (heap s) (inst_value (heap s ! b)) = Some u"
      by (cases k) (auto split: if_splits)
    from nested_payload_append [OF j, of "[heap s ! b]"] True
    show ?thesis by (simp add: c k PRef isinstance_def)
  next
    case False
    then show ?thesis by (cases k) (simp_all add: c PRef isinstance_def)
  qed
next
  case (PObject x)
  then show ?thesis by (cases k) (simp_all add: copy_copy_def isinstance_def)
qed (cases k; simp add: copy_copy_def isinstance_def)+

lemma Maybe_flatten_new:
  assumes "nested_payload k MaybeCls (heap s) y = Some u"
  shows "(let (r, s3) = Maybe_init y s in Maybe_flatten r s3) =
           Some (Inr (PRef (length (heap s)),
             s\<lparr>heap := heap s @ [\<lparr>inst_class = MaybeCls, inst_value = u, inst_state = None\<rparr>]\<rparr>))"
proof -
  define r where "r = length (heap s)"
  define h3 where "h3 = heap s @ [\<lparr>inst_class = MaybeCls, inst_value = y, inst_state = None\<rparr>]"
  have r3: "r < length h3" and hr: "h3 ! r = \<lparr>inst_class = MaybeCls, inst_value = y, inst_state = None\<rparr>"
    by (simp_all add: r_def h3_def)
  have "nested_payload k MaybeCls h3 (inst_value (h3 ! r)) = Some u"
    using nested_payload_append [OF assms] by (simp add: hr) (simp add: h3_def)
  from Maybe_flatten_cls_eq [OF r3 this]
  have "Maybe_flatten_cls MaybeCls r h3 =
          Some (heap s @ [\<lparr>inst_class = MaybeCls, inst_value = u, inst_state = None\<rparr>])"
    by (simp add: hr) (simp add: h3_def r_def)
  then show ?thesis
    by (simp add: Maybe_init_def new_instance_def Maybe_flatten_def r_def h3_def)
qed

lemma Just_eq:
  "Just v s = Some (Inr (PRef (length (heap s)),
     s\<lparr>heap := heap s @ [\<lparr>inst_class = MaybeCls, inst_value = v, inst_state = None\<rparr>]\<rparr>))"
  by (simp add: Just_def Maybe_init_def new_instance_def)

lemma Maybe_unit_eq:
  assumes "a < length (heap s)" and "inst_class (heap s ! a) = MaybeCls"
    and "nested_payload n MaybeCls (heap s) (inst_value (heap s ! a)) = Some u"
  shows "Maybe_unit (PRef a) s =
           Some (Inr (PRef (length (heap (snd (copy_copy (inst_value (heap s ! a)) s)))),
             (snd (copy_copy (inst_value (heap s ! a)) s))
               \<lparr>heap := heap (snd (copy_copy (inst_value (heap s ! a)) s)) @
                  [\<lparr>inst_class = MaybeCls,
                    inst_value = (if isinstance (heap s) (inst_value (heap s ! a)) MaybeCls then u
                                  else fst (copy_copy (inst_value (heap s ! a)) s)),
                    inst_state = None\<rparr>]\<rparr>))"
proof -
  let ?p = "inst_value (heap s ! a)"
  obtain c s1 where cp: "copy_copy ?p s = (c, s1)"
    by (cases "copy_copy ?p s")
  from copy_copy_nested [OF assms(3)] cp
  have "nested_payload n MaybeCls (heap s1) c =
          Some (if isinstance (heap s) ?p MaybeCls then u else c)"
    by simp
  from Maybe_flatten_new [OF this]
  have "(let (r, s3) = Maybe_init c s1 in Maybe_flatten r s3) =
          Some (Inr (PRef (length (heap s1)),
            s1\<lparr>heap := heap s1 @ [\<lparr>inst_class = MaybeCls,
              inst_value = (if isinstance (heap s) ?p MaybeCls then u else c),
              inst_state = None\<rparr>]\<rparr>))" .
  moreover have "Maybe_unit (PRef a) s = (let (r, s3) = Maybe_init c s1 in Maybe_flatten r s3)"
    using assms(2) cp by (simp add: Maybe_unit_def isinstance_def)
  ultimately show ?thesis by (simp add: cp)
qed

lemma Maybe_unit_plain:
  "\<not> isinstance (heap s) x MaybeCls \<Longrightarrow> Maybe_unit x s = Just x s"
  by (cases x) (simp_all add: Maybe_unit_def Just_def)

lemma take_prefix_length: "take n xs = ys \<Longrightarrow> n = length ys \<Longrightarrow> length ys \<le> length xs"
  by (metis length_take min.cobounded1)

lemma Monad_flatten_Maybe:
  assumes "m < length (heap s)" and "inst_class (heap s ! m) = MaybeCls"
    and "nested_payload n MaybeCls (heap s) (inst_value (heap s ! m)) = Some u"
  shows "Monad_flatten w m s =
           Some (Inr (PRef m, s\<lparr>heap := (heap s)[m := (heap s ! m)\<lparr>inst_value := u\<rparr>]\<rparr>))"
  using Maybe_flatten_cls_eq [OF assms(1,3)] assms(2)
  by (simp add: Monad_flatten_def flatten_cls_def)

lemma Monad_flatten_Context:
  assumes "m < length (heap s)" and "inst_class (heap s ! m) \<noteq> MaybeCls"
    and "inst_state (heap s ! m) = Some s0"
    and "nested_states n (inst_class (heap s ! m)) (heap s) (inst_value (heap s ! m)) = Some (sts, u)"
  shows "Monad_flatten w m s =
           Some (case add_all (state_add w) s0 sts of
                   Inl e \<Rightarrow> Inl e
                 | Inr st \<Rightarrow>
                     Inr (PRef m,
                       s\<lparr>heap := (heap s)[m := (heap s ! m)\<lparr>inst_value := u,
                                                             inst_state := Some st\<rparr>]\<rparr>))"
proof -
  note ch = ContextMonad_flatten_cls_chain [OF assms(1,3,4), of "state_add w"]
  show ?thesis
    using ch assms(2)
    by (cases "inst_class (heap s ! m)"; cases "add_all (state_add w) s0 sts")
       (simp_all add: Monad_flatten_def flatten_cls_def)
qed

lemma Monad_flattened_Maybe:
  assumes "m < length (heap s)"
    and "nested_payload n MaybeCls (heap s) (inst_value (heap s ! m)) = Some u"
  shows "Monad_flattened w MaybeCls (PRef m) s =
           Some (Inr (PRef (length (heap s)),
             s\<lparr>heap := heap s @ [(heap s ! m)\<lparr>inst_value := u\<rparr>]\<rparr>))"
proof -
  define r where "r = length (heap s)"
  define h1 where "h1 = heap s @ [heap s ! m]"
  have cp: "copy_copy (PRef m) s = (PRef r, s\<lparr>heap := h1\<rparr>)"
    by (simp add: copy_copy_def new_instance_def r_def h1_def)
  have r1: "r < length h1" and hr: "h1 ! r = heap s ! m"
    by (simp_all add: r_def h1_def)
  have "nested_payload n MaybeCls h1 (inst_value (h1 ! r)) = Some u"
    using nested_payload_append [OF assms(2)] by (simp add: hr) (simp add: h1_def)
  from Maybe_flatten_cls_eq [OF r1 this]
  have "Maybe_flatten_cls MaybeCls r h1 = Some (heap s @ [(heap s ! m)\<lparr>inst_value := u\<rparr>])"
    by (simp add: hr) (simp add: h1_def r_def)
  then show ?thesis
    using cp by (simp add: Monad_flattened_def flatten_cls_def r_def)
qed

lemma Monad_flattened_Context:
  assumes "m < length (heap s)" and "c \<noteq> MaybeCls"
    and "inst_state (heap s ! m) = Some s0"
    and "nested_states n c (heap s) (inst_value (heap s ! m)) = Some (sts, u)"
  shows "Monad_flattened w c (PRef m) s =
           Some (case add_all (state_add w) s0 sts of
                   Inl e \<Rightarrow> Inl e
                 | Inr st \<Rightarrow>
                     Inr (PRef (length (heap s)),
                       s\<lparr>heap := heap s @ [(heap s ! m)\<lparr>inst_value := u,
                                                          inst_state := Some st\<rparr>]\<rparr>))"
proof -
  define r where "r = length (heap s)"
  define h1 where "h1 = heap s @ [heap s ! m]"
  have cp: "copy_copy (PRef m) s = (PRef r, s\<lparr>heap := h1\<rparr>)"
    by (simp add: copy_copy_def new_instance_def r_def h1_def)
  have r1: "r < length h1" and hr: "h1 ! r = heap s ! m"
    by (simp_all add: r_def h1_def)
  have st: "inst_state (h1 ! r) = Some s0"
    using assms(3) by (simp add: hr)
  have ns: "nested_states n c h1 (inst_value (h1 ! r)) = Some (sts, u)"
    using nested_states_append [OF assms(4)] by (simp add: hr) (simp add: h1_def)
  have up: "h1[r := (h1 ! r)\<lparr>inst_value := u, inst_state := Some st\<rparr>] =
            heap s @ [(heap s ! m)\<lparr>inst_value := u, inst_state := Some st\<rparr>]" for st
    by (simp add: hr) (simp add: h1_def r_def)
  note ch = ContextMonad_flatten_cls_chain [OF r1 st ns, of "state_add w"]
  show ?thesis
    using ch assms(2) cp
    by (cases c; cases "add_all (state_add w) s0 sts")
       (simp_all add: Monad_flattened_def flatten_cls_def up, simp_all add: r_def)
qed

lemma Monad_bind_present:
  assumes m: "m < length (heap s)" and cl: "inst_class (heap s ! m) = MaybeCls"
    and pr: "\<not> is_nothing (heap s) m"
    and cf: "callf f (inst_value (heap s ! m)) s = Some (Inr (y, s1))"
    and tk: "take (length (heap s)) (heap s1) = heap s"
    and wy: "nested_payload k MaybeCls (heap s1) y = Some u"
  shows "Monad_bind callf w m f s =
           Some (Inr (PRef (length (heap s1)),
             s1\<lparr>heap := heap s1 @ [\<lparr>inst_class = MaybeCls, inst_value = u,
                                    inst_state = None\<rparr>]\<rparr>)) \<and>
         m < length (heap s1) \<and> heap s1 ! m = heap s ! m"
proof -
  have len: "length (heap s) \<le> length (heap s1)"
    by (rule take_prefix_length [OF tk]) simp
  have m1: "m < length (heap s1)" using m len by simp
  have hm: "heap s1 ! m = heap s ! m"
    by (rule take_nth_eq [OF tk m])
  have fm: "Functor_fmap callf m f s =
      Some (Inr (PRef (length (heap s1)),
        s1\<lparr>heap := heap s1 @ [\<lparr>inst_class = MaybeCls, inst_value = y, inst_state = None\<rparr>]\<rparr>))"
    using cl pr cf
    by (simp add: Functor_fmap_def Maybe_fmap_cls_def getattr_value_def Maybe_value_def
        Maybe_init_def new_instance_def)
  have "Monad_bind callf w m f s = (let (r, s3) = Maybe_init y s1 in Maybe_flatten r s3)"
    using fm cl hm m1
    by (simp add: Monad_bind_def flatten_cls_def Maybe_init_def new_instance_def
        Maybe_flatten_def nth_append split: option.splits)
  with Maybe_flatten_new [OF wy] m1 hm show ?thesis by simp
qed

lemma Monad_bind_absent:
  assumes "inst_class (heap s ! m) = MaybeCls" and "is_nothing (heap s) m"
    and "m < length (heap s)"
  shows "Monad_bind callf w m f s =
           Some (Inr (PRef (length (heap s)),
             s\<lparr>heap := heap s @ [\<lparr>inst_class = MaybeCls, inst_value = Maybe_Nothing_sentinel,
                                  inst_state = None\<rparr>]\<rparr>))"
  using assms
  by (simp add: Monad_bind_def Functor_fmap_def Maybe_fmap_cls_nothing Nothing_eq
      flatten_cls_def nth_append Maybe_flatten_cls.simps Maybe_Nothing_sentinel_def)

subsection \<open>flatten, unit and bind\<close>

text \<open>
  C5. \<open>ContextMonad._flatten_cls\<close> on an instance with state \<open>s_outer\<close> whose payload
  is wrapped in instances with the states \<open>sts\<close>, outermost first, around the value
  \<open>u\<close>: the instance ends with the payload \<open>u\<close> and the state
  \<open>(s_outer + st1) + st2 ...\<close>, every other instance is as it was, and an addition that
  raises ends the call. For one inner instance the state is \<open>s_outer + s_inner\<close>. The
  \<open>+\<close> of \<open>DictState\<close> gives a new mapping that has the right operand's value for
  each of its keys and the left operand's value for every other key.
\<close>

theorem ContextMonad_flatten_accumulates:
  assumes "i < length h" and "inst_state (h ! i) = Some s_outer"
    and "nested_states n c h (inst_value (h ! i)) = Some (sts, u)"
  shows "ContextMonad_flatten_cls add c i h =
           Some (case add_all add s_outer sts of
                   Inl e \<Rightarrow> Inl e
                 | Inr st \<Rightarrow> Inr (h[i := (h ! i)\<lparr>inst_value := u, inst_state := Some st\<rparr>])) \<and>
         add_all add s_outer [s_inner] = add s_outer s_inner \<and>
         DictState_add (DictState a) (DictState b) = Inr (Dict (dict_or a b)) \<and>
         dict_or a b k = (if k \<in> dom b then b k else a k)"
proof -
  have "add_all add s_outer [s_inner] = add s_outer s_inner"
    by (cases "add s_outer s_inner") simp_all
  moreover have "dict_or a b k = (if k \<in> dom b then b k else a k)"
    by (auto simp: dict_or_def dom_def split: option.splits)
  ultimately show ?thesis
    using ContextMonad_flatten_cls_chain [OF assms, of add] by simp
qed

theorem ContextMonad_flatten_accumulates_witness:
  "0 < length [\<lparr>inst_class = DictStateMonadCls, inst_value = PRef 1,
                 inst_state = Some (DictState [''a'' \<mapsto> PInt 1])\<rparr>,
               \<lparr>inst_class = DictStateMonadCls, inst_value = PInt 5,
                 inst_state = Some (DictState [''a'' \<mapsto> PInt 2, ''b'' \<mapsto> PInt 3])\<rparr>] \<and>
   nested_states (Suc 0) DictStateMonadCls
     [\<lparr>inst_class = DictStateMonadCls, inst_value = PRef 1,
       inst_state = Some (DictState [''a'' \<mapsto> PInt 1])\<rparr>,
      \<lparr>inst_class = DictStateMonadCls, inst_value = PInt 5,
       inst_state = Some (DictState [''a'' \<mapsto> PInt 2, ''b'' \<mapsto> PInt 3])\<rparr>] (PRef 1) =
     Some ([DictState [''a'' \<mapsto> PInt 2, ''b'' \<mapsto> PInt 3]], PInt 5) \<and>
   ContextMonad_flatten_cls DictState_add DictStateMonadCls 0
     [\<lparr>inst_class = DictStateMonadCls, inst_value = PRef 1,
       inst_state = Some (DictState [''a'' \<mapsto> PInt 1])\<rparr>,
      \<lparr>inst_class = DictStateMonadCls, inst_value = PInt 5,
       inst_state = Some (DictState [''a'' \<mapsto> PInt 2, ''b'' \<mapsto> PInt 3])\<rparr>] =
     Some (Inr
       [\<lparr>inst_class = DictStateMonadCls, inst_value = PInt 5,
         inst_state = Some (Dict (dict_or [''a'' \<mapsto> PInt 1]
                                          [''a'' \<mapsto> PInt 2, ''b'' \<mapsto> PInt 3]))\<rparr>,
        \<lparr>inst_class = DictStateMonadCls, inst_value = PInt 5,
         inst_state = Some (DictState [''a'' \<mapsto> PInt 2, ''b'' \<mapsto> PInt 3])\<rparr>]) \<and>
   dict_or [''a'' \<mapsto> PInt 1] [''a'' \<mapsto> PInt 2, ''b'' \<mapsto> PInt 3] ''a'' = Some (PInt 2)"
proof -
  let ?outer = "\<lparr>inst_class = DictStateMonadCls, inst_value = PRef 1,
                  inst_state = Some (DictState [''a'' \<mapsto> PInt 1])\<rparr>"
  let ?inner = "\<lparr>inst_class = DictStateMonadCls, inst_value = PInt 5,
                  inst_state = Some (DictState [''a'' \<mapsto> PInt 2, ''b'' \<mapsto> PInt 3])\<rparr>"
  let ?h = "[?outer, ?inner]"
  have h1: "0 < length ?h" by simp
  have h2: "inst_state (?h ! 0) = Some (DictState [''a'' \<mapsto> PInt 1])" by simp
  have h3: "nested_states (Suc 0) DictStateMonadCls ?h (inst_value (?h ! 0)) =
              Some ([DictState [''a'' \<mapsto> PInt 2, ''b'' \<mapsto> PInt 3]], PInt 5)"
    by simp
  show ?thesis
    using h1 h3
      ContextMonad_flatten_accumulates [OF h1 h2 h3, of DictState_add
        "DictState Map.empty" "[''a'' \<mapsto> PInt 1]" "[''a'' \<mapsto> PInt 2, ''b'' \<mapsto> PInt 3]" "''a''"]
    by simp
qed

text \<open>
  C4, as the code has it. For a \<open>Maybe\<close> at \<open>a\<close> whose payload is finitely nested
  around \<open>u\<close>, \<open>Maybe.unit\<close> returns a new \<open>Maybe\<close>, the last instance of the new heap,
  and changes no instance that existed; its payload is \<open>u\<close> when the payload of \<open>a\<close> is
  a \<open>Maybe\<close> and the copy of that payload when it is not, and in both cases no
  \<open>Maybe\<close>. \<open>Just\<close> builds a \<open>Maybe\<close> around the value as it is, so that the payload
  of \<open>Just\<close> of a \<open>Maybe\<close> is a \<open>Maybe\<close>; on a value \<open>x\<close> that is no \<open>Maybe\<close>,
  \<open>unit\<close> and \<open>Just\<close> do the same.
\<close>

theorem Maybe_unit_flattens_Just_wraps:
  assumes "a < length (heap s)" and "inst_class (heap s ! a) = MaybeCls"
    and "nested_payload n MaybeCls (heap s) (inst_value (heap s ! a)) = Some u"
  shows "(\<exists>r s'. Maybe_unit (PRef a) s = Some (Inr (PRef r, s')) \<and>
            length (heap s) \<le> r \<and> length (heap s') = Suc r \<and>
            take (length (heap s)) (heap s') = heap s \<and>
            heap s' ! r =
              \<lparr>inst_class = MaybeCls,
               inst_value = (if isinstance (heap s) (inst_value (heap s ! a)) MaybeCls then u
                             else fst (copy_copy (inst_value (heap s ! a)) s)),
               inst_state = None\<rparr> \<and>
            \<not> isinstance (heap s') (inst_value (heap s' ! r)) MaybeCls) \<and>
         Just (PRef a) s = Some (Inr (PRef (length (heap s)),
           s\<lparr>heap := heap s @ [\<lparr>inst_class = MaybeCls, inst_value = PRef a,
                                inst_state = None\<rparr>]\<rparr>)) \<and>
         isinstance (heap s @ [\<lparr>inst_class = MaybeCls, inst_value = PRef a, inst_state = None\<rparr>])
           (PRef a) MaybeCls \<and>
         (if isinstance (heap s) x MaybeCls then True else Maybe_unit x s = Just x s)"
proof -
  let ?p = "inst_value (heap s ! a)"
  let ?s1 = "snd (copy_copy ?p s)"
  let ?w = "if isinstance (heap s) ?p MaybeCls then u else fst (copy_copy ?p s)"
  let ?x = "\<lparr>inst_class = MaybeCls, inst_value = ?w, inst_state = None :: 'a option\<rparr>"
  let ?s' = "?s1\<lparr>heap := heap ?s1 @ [?x]\<rparr>"
  note cn = copy_copy_nested [OF assms(3)]
  have tk: "take (length (heap s)) (heap ?s1) = heap s"
    using cn by simp
  have le: "length (heap s) \<le> length (heap ?s1)"
    by (rule take_prefix_length [OF tk]) simp
  have "nested_payload n MaybeCls (heap ?s1 @ [?x]) (fst (copy_copy ?p s)) = Some ?w"
    using cn by (simp add: nested_payload_append)
  then have ni: "\<not> isinstance (heap ?s1 @ [?x]) ?w MaybeCls"
    by (rule nested_payload_not_instance)
  have u: "Maybe_unit (PRef a) s = Some (Inr (PRef (length (heap ?s1)), ?s'))"
    by (rule Maybe_unit_eq [OF assms])
  have "Maybe_unit (PRef a) s = Some (Inr (PRef (length (heap ?s1)), ?s')) \<and>
        length (heap s) \<le> length (heap ?s1) \<and> length (heap ?s') = Suc (length (heap ?s1)) \<and>
        take (length (heap s)) (heap ?s') = heap s \<and>
        heap ?s' ! length (heap ?s1) = ?x \<and>
        \<not> isinstance (heap ?s') (inst_value (heap ?s' ! length (heap ?s1))) MaybeCls"
    using u le tk ni by simp
  then have "\<exists>r s'. Maybe_unit (PRef a) s = Some (Inr (PRef r, s')) \<and>
            length (heap s) \<le> r \<and> length (heap s') = Suc r \<and>
            take (length (heap s)) (heap s') = heap s \<and>
            heap s' ! r = ?x \<and>
            \<not> isinstance (heap s') (inst_value (heap s' ! r)) MaybeCls"
    by blast
  moreover have "isinstance (heap s @ [\<lparr>inst_class = MaybeCls, inst_value = PRef a,
      inst_state = None\<rparr>]) (PRef a) MaybeCls"
    using assms(1,2) by (simp add: isinstance_def nth_append)
  moreover have "if isinstance (heap s) x MaybeCls then True else Maybe_unit x s = Just x s"
    by (simp add: Maybe_unit_plain)
  ultimately show ?thesis
    using Just_eq [of "PRef a" s] by simp
qed

theorem Maybe_unit_flattens_Just_wraps_witness:
  "(2::nat) < length (heap
     \<lparr>heap = [\<lparr>inst_class = MaybeCls, inst_value = PInt 5, inst_state = None :: dstate option\<rparr>,
              \<lparr>inst_class = MaybeCls, inst_value = PRef 0, inst_state = None\<rparr>,
              \<lparr>inst_class = MaybeCls, inst_value = PRef 1, inst_state = None\<rparr>],
      next_object = 1, calls = []\<rparr>) \<and>
   nested_payload 2 MaybeCls
     [\<lparr>inst_class = MaybeCls, inst_value = PInt 5, inst_state = None :: dstate option\<rparr>,
      \<lparr>inst_class = MaybeCls, inst_value = PRef 0, inst_state = None\<rparr>,
      \<lparr>inst_class = MaybeCls, inst_value = PRef 1, inst_state = None\<rparr>] (PRef 1) =
     Some (PInt 5) \<and>
   (\<exists>r s'. Maybe_unit (PRef 2)
       \<lparr>heap = [\<lparr>inst_class = MaybeCls, inst_value = PInt 5, inst_state = None :: dstate option\<rparr>,
                \<lparr>inst_class = MaybeCls, inst_value = PRef 0, inst_state = None\<rparr>,
                \<lparr>inst_class = MaybeCls, inst_value = PRef 1, inst_state = None\<rparr>],
        next_object = 1, calls = []\<rparr> = Some (Inr (PRef r, s')) \<and>
      3 \<le> r \<and>
      take 3 (heap s') =
        [\<lparr>inst_class = MaybeCls, inst_value = PInt 5, inst_state = None\<rparr>,
         \<lparr>inst_class = MaybeCls, inst_value = PRef 0, inst_state = None\<rparr>,
         \<lparr>inst_class = MaybeCls, inst_value = PRef 1, inst_state = None\<rparr>] \<and>
      heap s' ! r = \<lparr>inst_class = MaybeCls, inst_value = PInt 5, inst_state = None\<rparr> \<and>
      \<not> isinstance (heap s') (inst_value (heap s' ! r)) MaybeCls)"
proof -
  let ?s = "\<lparr>heap = [\<lparr>inst_class = MaybeCls, inst_value = PInt 5, inst_state = None :: dstate option\<rparr>,
                     \<lparr>inst_class = MaybeCls, inst_value = PRef 0, inst_state = None\<rparr>,
                     \<lparr>inst_class = MaybeCls, inst_value = PRef 1, inst_state = None\<rparr>],
             next_object = 1, calls = []\<rparr>"
  have h1: "2 < length (heap ?s)" by simp
  have h2: "inst_class (heap ?s ! 2) = MaybeCls" by simp
  have h3: "nested_payload 2 MaybeCls (heap ?s) (inst_value (heap ?s ! 2)) = Some (PInt 5)"
    by (simp add: numeral_2_eq_2)
  have h4: "nested_payload 2 MaybeCls (heap ?s) (PRef 1) = Some (PInt 5)"
    by (simp add: numeral_2_eq_2)
  from Maybe_unit_flattens_Just_wraps [OF h1 h2 h3, THEN conjunct1]
  have "\<exists>r s'. Maybe_unit (PRef 2) ?s = Some (Inr (PRef r, s')) \<and>
      3 \<le> r \<and> take 3 (heap s') = heap ?s \<and>
      heap s' ! r = \<lparr>inst_class = MaybeCls, inst_value = PInt 5, inst_state = None\<rparr> \<and>
      \<not> isinstance (heap s') (inst_value (heap s' ! r)) MaybeCls"
    by (auto simp: isinstance_def numeral_3_eq_3)
  with h1 h4 show ?thesis by simp
qed

text \<open>
  C4, as the claim has it, fails for \<open>Just\<close>: \<open>Just(Just(5))\<close> is a \<open>Maybe\<close> whose
  payload is the inner \<open>Maybe\<close>.
\<close>

theorem Just_double_wraps:
  "Just (PRef 0)
     \<lparr>heap = [\<lparr>inst_class = MaybeCls, inst_value = PInt 5, inst_state = None :: dstate option\<rparr>],
      next_object = 1, calls = []\<rparr> =
     Some (Inr (PRef 1,
       \<lparr>heap = [\<lparr>inst_class = MaybeCls, inst_value = PInt 5, inst_state = None\<rparr>,
                \<lparr>inst_class = MaybeCls, inst_value = PRef 0, inst_state = None\<rparr>],
        next_object = 1, calls = []\<rparr>)) \<and>
   isinstance
     [\<lparr>inst_class = MaybeCls, inst_value = PInt 5, inst_state = None :: dstate option\<rparr>,
      \<lparr>inst_class = MaybeCls, inst_value = PRef 0, inst_state = None\<rparr>]
     (inst_value ([\<lparr>inst_class = MaybeCls, inst_value = PInt 5, inst_state = None :: dstate option\<rparr>,
                   \<lparr>inst_class = MaybeCls, inst_value = PRef 0, inst_state = None\<rparr>] ! 1))
     MaybeCls"
  by (simp add: Just_def Maybe_init_def new_instance_def isinstance_def)

text \<open>
  C9, as the code has it. \<open>m.flatten()\<close> returns \<open>m\<close> itself and changes \<open>m\<close> and no other
  instance; \<open>flattened(m)\<close> returns a new instance, the copy of \<open>m\<close> flattened, and
  changes no instance that existed. For a \<open>Maybe\<close> whose payload is finitely nested
  around \<open>u\<close> the payload becomes \<open>u\<close>. For a context monad with state \<open>s0\<close> whose
  payload is wrapped in instances with the states \<open>sts\<close> around \<open>v\<close> the payload
  becomes \<open>v\<close> and the state the sum of \<open>s0\<close> and \<open>sts\<close>, outermost first; when an
  addition raises, the call raises. \<open>m.bind(f)\<close> on a \<open>Maybe\<close> returns neither \<open>m\<close> nor
  a changed \<open>m\<close>: on a present \<open>m\<close>, when \<open>f\<close> returns a value finitely nested around
  \<open>uy\<close> and leaves the instances that existed as they were, it returns a new \<open>Maybe\<close>
  with the payload \<open>uy\<close>, added to the heap that \<open>f\<close> left; on an absent \<open>m\<close> it
  returns a new absent \<open>Maybe\<close> and \<open>f\<close> is not called.
\<close>

theorem flatten_in_place_bind_returns_new:
  assumes "m < length (heap s)"
  shows "(inst_class (heap s ! m) = MaybeCls \<and>
          nested_payload n MaybeCls (heap s) (inst_value (heap s ! m)) = Some u \<longrightarrow>
            Monad_flatten w m s =
              Some (Inr (PRef m, s\<lparr>heap := (heap s)[m := (heap s ! m)\<lparr>inst_value := u\<rparr>]\<rparr>)) \<and>
            Monad_flattened w MaybeCls (PRef m) s =
              Some (Inr (PRef (length (heap s)),
                s\<lparr>heap := heap s @ [(heap s ! m)\<lparr>inst_value := u\<rparr>]\<rparr>))) \<and>
         (inst_class (heap s ! m) \<noteq> MaybeCls \<and> inst_state (heap s ! m) = Some s0 \<and>
          nested_states k (inst_class (heap s ! m)) (heap s) (inst_value (heap s ! m)) =
            Some (sts, v) \<longrightarrow>
            Monad_flatten w m s =
              Some (case add_all (state_add w) s0 sts of
                      Inl e \<Rightarrow> Inl e
                    | Inr st \<Rightarrow>
                        Inr (PRef m,
                          s\<lparr>heap := (heap s)[m := (heap s ! m)\<lparr>inst_value := v,
                                                                inst_state := Some st\<rparr>]\<rparr>)) \<and>
            Monad_flattened w (inst_class (heap s ! m)) (PRef m) s =
              Some (case add_all (state_add w) s0 sts of
                      Inl e \<Rightarrow> Inl e
                    | Inr st \<Rightarrow>
                        Inr (PRef (length (heap s)),
                          s\<lparr>heap := heap s @ [(heap s ! m)\<lparr>inst_value := v,
                                                             inst_state := Some st\<rparr>]\<rparr>))) \<and>
         (inst_class (heap s ! m) = MaybeCls \<and> \<not> is_nothing (heap s) m \<and>
          callf f (inst_value (heap s ! m)) s = Some (Inr (y, s1)) \<and>
          take (length (heap s)) (heap s1) = heap s \<and>
          nested_payload j MaybeCls (heap s1) y = Some uy \<longrightarrow>
            Monad_bind callf w m f s =
              Some (Inr (PRef (length (heap s1)),
                s1\<lparr>heap := heap s1 @ [\<lparr>inst_class = MaybeCls, inst_value = uy,
                                       inst_state = None\<rparr>]\<rparr>)) \<and>
            m < length (heap s1) \<and> heap s1 ! m = heap s ! m) \<and>
         (inst_class (heap s ! m) = MaybeCls \<and> is_nothing (heap s) m \<longrightarrow>
            Monad_bind callf w m f s =
              Some (Inr (PRef (length (heap s)),
                s\<lparr>heap := heap s @ [\<lparr>inst_class = MaybeCls,
                                     inst_value = Maybe_Nothing_sentinel,
                                     inst_state = None\<rparr>]\<rparr>)))"
proof (intro conjI impI)
  assume a: "inst_class (heap s ! m) = MaybeCls \<and>
          nested_payload n MaybeCls (heap s) (inst_value (heap s ! m)) = Some u"
  show "Monad_flatten w m s =
          Some (Inr (PRef m, s\<lparr>heap := (heap s)[m := (heap s ! m)\<lparr>inst_value := u\<rparr>]\<rparr>))"
    using a Monad_flatten_Maybe [OF assms, where n = n and u = u and w = w] by simp
  show "Monad_flattened w MaybeCls (PRef m) s =
          Some (Inr (PRef (length (heap s)),
            s\<lparr>heap := heap s @ [(heap s ! m)\<lparr>inst_value := u\<rparr>]\<rparr>))"
    using a Monad_flattened_Maybe [OF assms, where n = n and u = u and w = w] by simp
next
  assume a: "inst_class (heap s ! m) \<noteq> MaybeCls \<and> inst_state (heap s ! m) = Some s0 \<and>
          nested_states k (inst_class (heap s ! m)) (heap s) (inst_value (heap s ! m)) =
            Some (sts, v)"
  show "Monad_flatten w m s =
          Some (case add_all (state_add w) s0 sts of
                  Inl e \<Rightarrow> Inl e
                | Inr st \<Rightarrow>
                    Inr (PRef m,
                      s\<lparr>heap := (heap s)[m := (heap s ! m)\<lparr>inst_value := v,
                                                            inst_state := Some st\<rparr>]\<rparr>))"
    using a Monad_flatten_Context [OF assms, where n = k and ?s0.0 = s0 and sts = sts
        and u = v and w = w]
    by simp
  show "Monad_flattened w (inst_class (heap s ! m)) (PRef m) s =
          Some (case add_all (state_add w) s0 sts of
                  Inl e \<Rightarrow> Inl e
                | Inr st \<Rightarrow>
                    Inr (PRef (length (heap s)),
                      s\<lparr>heap := heap s @ [(heap s ! m)\<lparr>inst_value := v,
                                                         inst_state := Some st\<rparr>]\<rparr>))"
    using a Monad_flattened_Context [OF assms, where n = k and ?s0.0 = s0 and sts = sts
        and u = v and w = w and c = "inst_class (heap s ! m)"]
    by simp
next
  assume a: "inst_class (heap s ! m) = MaybeCls \<and> \<not> is_nothing (heap s) m \<and>
          callf f (inst_value (heap s ! m)) s = Some (Inr (y, s1)) \<and>
          take (length (heap s)) (heap s1) = heap s \<and>
          nested_payload j MaybeCls (heap s1) y = Some uy"
  note b = Monad_bind_present [OF assms, where callf = callf and f = f and y = y
      and ?s1.0 = s1 and k = j and u = uy and w = w]
  show "Monad_bind callf w m f s =
          Some (Inr (PRef (length (heap s1)),
            s1\<lparr>heap := heap s1 @ [\<lparr>inst_class = MaybeCls, inst_value = uy,
                                   inst_state = None\<rparr>]\<rparr>))"
    using a b by simp
  show "m < length (heap s1)" using a b by simp
  show "heap s1 ! m = heap s ! m" using a b by simp
next
  assume a: "inst_class (heap s ! m) = MaybeCls \<and> is_nothing (heap s) m"
  show "Monad_bind callf w m f s =
              Some (Inr (PRef (length (heap s)),
                s\<lparr>heap := heap s @ [\<lparr>inst_class = MaybeCls,
                                     inst_value = Maybe_Nothing_sentinel,
                                     inst_state = None\<rparr>]\<rparr>))"
    by (rule Monad_bind_absent) (use a assms in simp_all)
qed

theorem flatten_in_place_bind_returns_new_witness:
  "nested_payload (Suc 0) MaybeCls (heap
     \<lparr>heap = [\<lparr>inst_class = MaybeCls, inst_value = PInt 5, inst_state = None\<rparr>,
        \<lparr>inst_class = MaybeCls, inst_value = PRef 0, inst_state = None\<rparr>,
        \<lparr>inst_class = MaybeCls, inst_value = PObject 0, inst_state = None\<rparr>],
      next_object = 1, calls = []\<rparr>) (PRef 0) = Some (PInt 5) \<and>
   Monad_flatten \<lparr>prims = (\<lambda>k x h. Inr (x, h)), state_add = DictState_add\<rparr> 1
     \<lparr>heap = [\<lparr>inst_class = MaybeCls, inst_value = PInt 5, inst_state = None\<rparr>,
        \<lparr>inst_class = MaybeCls, inst_value = PRef 0, inst_state = None\<rparr>,
        \<lparr>inst_class = MaybeCls, inst_value = PObject 0, inst_state = None\<rparr>],
      next_object = 1, calls = []\<rparr> =
   Some (Inr (PRef 1,
     \<lparr>heap = [\<lparr>inst_class = MaybeCls, inst_value = PInt 5, inst_state = None\<rparr>,
        \<lparr>inst_class = MaybeCls, inst_value = PInt 5, inst_state = None\<rparr>,
        \<lparr>inst_class = MaybeCls, inst_value = PObject 0, inst_state = None\<rparr>],
      next_object = 1, calls = []\<rparr>)) \<and>
   Monad_flattened \<lparr>prims = (\<lambda>k x h. Inr (x, h)), state_add = DictState_add\<rparr> MaybeCls (PRef 1)
     \<lparr>heap = [\<lparr>inst_class = MaybeCls, inst_value = PInt 5, inst_state = None\<rparr>,
        \<lparr>inst_class = MaybeCls, inst_value = PRef 0, inst_state = None\<rparr>,
        \<lparr>inst_class = MaybeCls, inst_value = PObject 0, inst_state = None\<rparr>],
      next_object = 1, calls = []\<rparr> =
   Some (Inr (PRef 3,
     \<lparr>heap = [\<lparr>inst_class = MaybeCls, inst_value = PInt 5, inst_state = None\<rparr>,
        \<lparr>inst_class = MaybeCls, inst_value = PRef 0, inst_state = None\<rparr>,
        \<lparr>inst_class = MaybeCls, inst_value = PObject 0, inst_state = None\<rparr>,
        \<lparr>inst_class = MaybeCls, inst_value = PInt 5, inst_state = None\<rparr>],
      next_object = 1, calls = []\<rparr>)) \<and>
   call 1 \<lparr>prims = (\<lambda>k x h. Inr (x, h)), state_add = DictState_add\<rparr> (PUnit MaybeCls) (PRef 0)
     \<lparr>heap = [\<lparr>inst_class = MaybeCls, inst_value = PInt 5, inst_state = None\<rparr>,
        \<lparr>inst_class = MaybeCls, inst_value = PRef 0, inst_state = None\<rparr>,
        \<lparr>inst_class = MaybeCls, inst_value = PObject 0, inst_state = None\<rparr>],
      next_object = 1, calls = []\<rparr> =
   Some (Inr (PRef 3,
     \<lparr>heap = [\<lparr>inst_class = MaybeCls, inst_value = PInt 5, inst_state = None\<rparr>,
        \<lparr>inst_class = MaybeCls, inst_value = PRef 0, inst_state = None\<rparr>,
        \<lparr>inst_class = MaybeCls, inst_value = PObject 0, inst_state = None\<rparr>,
        \<lparr>inst_class = MaybeCls, inst_value = PInt 5, inst_state = None\<rparr>],
      next_object = 1, calls = []\<rparr>)) \<and>
   Monad_bind (call 1 \<lparr>prims = (\<lambda>k x h. Inr (x, h)), state_add = DictState_add\<rparr>) \<lparr>prims = (\<lambda>k x h. Inr (x, h)), state_add = DictState_add\<rparr> 1 (PUnit MaybeCls)
     \<lparr>heap = [\<lparr>inst_class = MaybeCls, inst_value = PInt 5, inst_state = None\<rparr>,
        \<lparr>inst_class = MaybeCls, inst_value = PRef 0, inst_state = None\<rparr>,
        \<lparr>inst_class = MaybeCls, inst_value = PObject 0, inst_state = None\<rparr>],
      next_object = 1, calls = []\<rparr> =
   Some (Inr (PRef 4,
     \<lparr>heap = [\<lparr>inst_class = MaybeCls, inst_value = PInt 5, inst_state = None\<rparr>,
        \<lparr>inst_class = MaybeCls, inst_value = PRef 0, inst_state = None\<rparr>,
        \<lparr>inst_class = MaybeCls, inst_value = PObject 0, inst_state = None\<rparr>,
        \<lparr>inst_class = MaybeCls, inst_value = PInt 5, inst_state = None\<rparr>,
        \<lparr>inst_class = MaybeCls, inst_value = PInt 5, inst_state = None\<rparr>],
      next_object = 1, calls = []\<rparr>)) \<and>
   Monad_bind (call 1 \<lparr>prims = (\<lambda>k x h. Inr (x, h)), state_add = DictState_add\<rparr>) \<lparr>prims = (\<lambda>k x h. Inr (x, h)), state_add = DictState_add\<rparr> 2 (PUnit MaybeCls)
     \<lparr>heap = [\<lparr>inst_class = MaybeCls, inst_value = PInt 5, inst_state = None\<rparr>,
        \<lparr>inst_class = MaybeCls, inst_value = PRef 0, inst_state = None\<rparr>,
        \<lparr>inst_class = MaybeCls, inst_value = PObject 0, inst_state = None\<rparr>],
      next_object = 1, calls = []\<rparr> =
   Some (Inr (PRef 3,
     \<lparr>heap = [\<lparr>inst_class = MaybeCls, inst_value = PInt 5, inst_state = None\<rparr>,
        \<lparr>inst_class = MaybeCls, inst_value = PRef 0, inst_state = None\<rparr>,
        \<lparr>inst_class = MaybeCls, inst_value = PObject 0, inst_state = None\<rparr>,
        \<lparr>inst_class = MaybeCls, inst_value = PObject 0, inst_state = None\<rparr>],
      next_object = 1, calls = []\<rparr>)) \<and>
   nested_states (Suc 0) DictStateMonadCls (heap
     \<lparr>heap = [\<lparr>inst_class = DictStateMonadCls, inst_value = PRef 1, inst_state = Some (DictState [''a'' \<mapsto> PInt 1])\<rparr>,
        \<lparr>inst_class = DictStateMonadCls, inst_value = PInt 5, inst_state = Some (DictState [''a'' \<mapsto> PInt 2, ''b'' \<mapsto> PInt 3])\<rparr>],
      next_object = 1, calls = []\<rparr>) (PRef 1) =
   Some ([DictState [''a'' \<mapsto> PInt 2, ''b'' \<mapsto> PInt 3]], PInt 5) \<and>
   Monad_flatten \<lparr>prims = (\<lambda>k x h. Inr (x, h)), state_add = DictState_add\<rparr> 0
     \<lparr>heap = [\<lparr>inst_class = DictStateMonadCls, inst_value = PRef 1, inst_state = Some (DictState [''a'' \<mapsto> PInt 1])\<rparr>,
        \<lparr>inst_class = DictStateMonadCls, inst_value = PInt 5, inst_state = Some (DictState [''a'' \<mapsto> PInt 2, ''b'' \<mapsto> PInt 3])\<rparr>],
      next_object = 1, calls = []\<rparr> =
   Some (Inr (PRef 0,
     \<lparr>heap = [\<lparr>inst_class = DictStateMonadCls, inst_value = PInt 5, inst_state = Some (Dict (dict_or [''a'' \<mapsto> PInt 1] [''a'' \<mapsto> PInt 2, ''b'' \<mapsto> PInt 3]))\<rparr>,
        \<lparr>inst_class = DictStateMonadCls, inst_value = PInt 5, inst_state = Some (DictState [''a'' \<mapsto> PInt 2, ''b'' \<mapsto> PInt 3])\<rparr>],
      next_object = 1, calls = []\<rparr>)) \<and>
   Monad_flattened \<lparr>prims = (\<lambda>k x h. Inr (x, h)), state_add = DictState_add\<rparr> DictStateMonadCls (PRef 0)
     \<lparr>heap = [\<lparr>inst_class = DictStateMonadCls, inst_value = PRef 1, inst_state = Some (DictState [''a'' \<mapsto> PInt 1])\<rparr>,
        \<lparr>inst_class = DictStateMonadCls, inst_value = PInt 5, inst_state = Some (DictState [''a'' \<mapsto> PInt 2, ''b'' \<mapsto> PInt 3])\<rparr>],
      next_object = 1, calls = []\<rparr> =
   Some (Inr (PRef 2,
     \<lparr>heap = [\<lparr>inst_class = DictStateMonadCls, inst_value = PRef 1, inst_state = Some (DictState [''a'' \<mapsto> PInt 1])\<rparr>,
        \<lparr>inst_class = DictStateMonadCls, inst_value = PInt 5, inst_state = Some (DictState [''a'' \<mapsto> PInt 2, ''b'' \<mapsto> PInt 3])\<rparr>,
        \<lparr>inst_class = DictStateMonadCls, inst_value = PInt 5, inst_state = Some (Dict (dict_or [''a'' \<mapsto> PInt 1] [''a'' \<mapsto> PInt 2, ''b'' \<mapsto> PInt 3]))\<rparr>],
      next_object = 1, calls = []\<rparr>))"
proof -
  let ?w = "\<lparr>prims = (\<lambda>k x h. Inr (x, h)), state_add = DictState_add\<rparr>"
  let ?s = "\<lparr>heap = [\<lparr>inst_class = MaybeCls, inst_value = PInt 5, inst_state = None\<rparr>,
        \<lparr>inst_class = MaybeCls, inst_value = PRef 0, inst_state = None\<rparr>,
        \<lparr>inst_class = MaybeCls, inst_value = PObject 0, inst_state = None\<rparr>],
      next_object = 1, calls = []\<rparr>"
  let ?s1 = "\<lparr>heap = [\<lparr>inst_class = MaybeCls, inst_value = PInt 5, inst_state = None\<rparr>,
        \<lparr>inst_class = MaybeCls, inst_value = PRef 0, inst_state = None\<rparr>,
        \<lparr>inst_class = MaybeCls, inst_value = PObject 0, inst_state = None\<rparr>,
        \<lparr>inst_class = MaybeCls, inst_value = PInt 5, inst_state = None\<rparr>],
      next_object = 1, calls = []\<rparr>"
  let ?c = "\<lparr>heap = [\<lparr>inst_class = DictStateMonadCls, inst_value = PRef 1, inst_state = Some (DictState [''a'' \<mapsto> PInt 1])\<rparr>,
        \<lparr>inst_class = DictStateMonadCls, inst_value = PInt 5, inst_state = Some (DictState [''a'' \<mapsto> PInt 2, ''b'' \<mapsto> PInt 3])\<rparr>],
      next_object = 1, calls = []\<rparr>"
  have h1: "1 < length (heap ?s)" by simp
  have a1: "inst_class (heap ?s ! 1) = MaybeCls \<and>
            nested_payload (Suc 0) MaybeCls (heap ?s) (inst_value (heap ?s ! 1)) = Some (PInt 5)"
    by simp
  have n1: "nested_payload (Suc 0) MaybeCls (heap ?s) (PRef 0) = Some (PInt 5)"
    by simp
  have cl: "call 1 ?w (PUnit MaybeCls) (PRef 0) ?s = Some (Inr (PRef 3, ?s1))"
    by (simp add: unit_of_def Maybe_unit_def isinstance_def copy_copy_def Maybe_init_def
        new_instance_def Maybe_flatten_def Maybe_flatten_cls.simps)
  have b1: "inst_class (heap ?s ! 1) = MaybeCls \<and> \<not> is_nothing (heap ?s) 1 \<and>
            call 1 ?w (PUnit MaybeCls) (inst_value (heap ?s ! 1)) ?s = Some (Inr (PRef 3, ?s1)) \<and>
            take (length (heap ?s)) (heap ?s1) = heap ?s \<and>
            nested_payload (Suc 0) MaybeCls (heap ?s1) (PRef 3) = Some (PInt 5)"
    using cl by (simp add: is_nothing_def Maybe_Nothing_sentinel_def)
  have h2: "2 < length (heap ?s)" by simp
  have a2: "inst_class (heap ?s ! 2) = MaybeCls \<and> is_nothing (heap ?s) 2"
    by (simp add: is_nothing_def Maybe_Nothing_sentinel_def)
  have h0: "0 < length (heap ?c)" by simp
  have c0: "inst_class (heap ?c ! 0) \<noteq> MaybeCls \<and>
            inst_state (heap ?c ! 0) = Some (DictState [''a'' \<mapsto> PInt 1]) \<and>
            nested_states (Suc 0) (inst_class (heap ?c ! 0)) (heap ?c) (inst_value (heap ?c ! 0)) =
              Some ([DictState [''a'' \<mapsto> PInt 2, ''b'' \<mapsto> PInt 3]], PInt 5)"
    by simp
  have nc: "nested_states (Suc 0) DictStateMonadCls (heap ?c) (PRef 1) =
              Some ([DictState [''a'' \<mapsto> PInt 2, ''b'' \<mapsto> PInt 3]], PInt 5)"
    by simp
  note t1 = flatten_in_place_bind_returns_new [OF h1, where w = ?w and callf = "call 1 ?w"
      and f = "PUnit MaybeCls" and y = "PRef 3" and ?s1.0 = ?s1 and j = "Suc 0"
      and uy = "PInt 5" and n = "Suc 0" and u = "PInt 5"]
  note t2 = flatten_in_place_bind_returns_new [OF h2, where w = ?w and callf = "call 1 ?w"
      and f = "PUnit MaybeCls"]
  note t0 = flatten_in_place_bind_returns_new [OF h0, where w = ?w and k = "Suc 0"
      and ?s0.0 = "DictState [''a'' \<mapsto> PInt 1]"
      and sts = "[DictState [''a'' \<mapsto> PInt 2, ''b'' \<mapsto> PInt 3]]" and v = "PInt 5"]
  have f1: "Monad_flatten ?w 1 ?s = Some (Inr (PRef 1, \<lparr>heap = [\<lparr>inst_class = MaybeCls, inst_value = PInt 5, inst_state = None\<rparr>,
        \<lparr>inst_class = MaybeCls, inst_value = PInt 5, inst_state = None\<rparr>,
        \<lparr>inst_class = MaybeCls, inst_value = PObject 0, inst_state = None\<rparr>],
      next_object = 1, calls = []\<rparr>))"
    using t1 [THEN conjunct1, THEN mp, OF a1, THEN conjunct1] by simp
  have f2: "Monad_flattened ?w MaybeCls (PRef 1) ?s = Some (Inr (PRef 3, \<lparr>heap = [\<lparr>inst_class = MaybeCls, inst_value = PInt 5, inst_state = None\<rparr>,
        \<lparr>inst_class = MaybeCls, inst_value = PRef 0, inst_state = None\<rparr>,
        \<lparr>inst_class = MaybeCls, inst_value = PObject 0, inst_state = None\<rparr>,
        \<lparr>inst_class = MaybeCls, inst_value = PInt 5, inst_state = None\<rparr>],
      next_object = 1, calls = []\<rparr>))"
    using t1 [THEN conjunct1, THEN mp, OF a1, THEN conjunct2] by simp
  have f3: "Monad_bind (call 1 ?w) ?w 1 (PUnit MaybeCls) ?s = Some (Inr (PRef 4, \<lparr>heap = [\<lparr>inst_class = MaybeCls, inst_value = PInt 5, inst_state = None\<rparr>,
        \<lparr>inst_class = MaybeCls, inst_value = PRef 0, inst_state = None\<rparr>,
        \<lparr>inst_class = MaybeCls, inst_value = PObject 0, inst_state = None\<rparr>,
        \<lparr>inst_class = MaybeCls, inst_value = PInt 5, inst_state = None\<rparr>,
        \<lparr>inst_class = MaybeCls, inst_value = PInt 5, inst_state = None\<rparr>],
      next_object = 1, calls = []\<rparr>))"
    using t1 [THEN conjunct2, THEN conjunct2, THEN conjunct1, THEN mp, OF b1, THEN conjunct1]
    by simp
  have f4: "Monad_bind (call 1 ?w) ?w 2 (PUnit MaybeCls) ?s = Some (Inr (PRef 3, \<lparr>heap = [\<lparr>inst_class = MaybeCls, inst_value = PInt 5, inst_state = None\<rparr>,
        \<lparr>inst_class = MaybeCls, inst_value = PRef 0, inst_state = None\<rparr>,
        \<lparr>inst_class = MaybeCls, inst_value = PObject 0, inst_state = None\<rparr>,
        \<lparr>inst_class = MaybeCls, inst_value = PObject 0, inst_state = None\<rparr>],
      next_object = 1, calls = []\<rparr>))"
    using t2 [THEN conjunct2, THEN conjunct2, THEN conjunct2, THEN mp, OF a2]
    by (simp add: Maybe_Nothing_sentinel_def)
  have f5: "Monad_flatten ?w 0 ?c = Some (Inr (PRef 0, \<lparr>heap = [\<lparr>inst_class = DictStateMonadCls, inst_value = PInt 5, inst_state = Some (Dict (dict_or [''a'' \<mapsto> PInt 1] [''a'' \<mapsto> PInt 2, ''b'' \<mapsto> PInt 3]))\<rparr>,
        \<lparr>inst_class = DictStateMonadCls, inst_value = PInt 5, inst_state = Some (DictState [''a'' \<mapsto> PInt 2, ''b'' \<mapsto> PInt 3])\<rparr>],
      next_object = 1, calls = []\<rparr>))"
    using t0 [THEN conjunct2, THEN conjunct1, THEN mp, OF c0, THEN conjunct1] by simp
  have f6: "Monad_flattened ?w DictStateMonadCls (PRef 0) ?c = Some (Inr (PRef 2, \<lparr>heap = [\<lparr>inst_class = DictStateMonadCls, inst_value = PRef 1, inst_state = Some (DictState [''a'' \<mapsto> PInt 1])\<rparr>,
        \<lparr>inst_class = DictStateMonadCls, inst_value = PInt 5, inst_state = Some (DictState [''a'' \<mapsto> PInt 2, ''b'' \<mapsto> PInt 3])\<rparr>,
        \<lparr>inst_class = DictStateMonadCls, inst_value = PInt 5, inst_state = Some (Dict (dict_or [''a'' \<mapsto> PInt 1] [''a'' \<mapsto> PInt 2, ''b'' \<mapsto> PInt 3]))\<rparr>],
      next_object = 1, calls = []\<rparr>))"
    using t0 [THEN conjunct2, THEN conjunct1, THEN mp, OF c0, THEN conjunct2] by simp
  show ?thesis
    by (intro conjI) (rule n1 f1 f2 cl f3 f4 nc f5 f6)+
qed

text \<open>
  C9, as the claim has it, fails for \<open>bind\<close>: \<open>Just(5).bind(Maybe.unit)\<close> returns the
  instance at address 2, not the receiver at address 0, and the receiver still holds 5.
\<close>

theorem bind_returns_other_instance:
  "Monad_bind (call 1 \<lparr>prims = (\<lambda>k x h. Inr (x, h)), state_add = DictState_add\<rparr>)
     \<lparr>prims = (\<lambda>k x h. Inr (x, h)), state_add = DictState_add\<rparr> 0 (PUnit MaybeCls)
     \<lparr>heap = [\<lparr>inst_class = MaybeCls, inst_value = PInt 5, inst_state = None\<rparr>],
      next_object = 1, calls = []\<rparr> =
   Some (Inr (PRef 2,
     \<lparr>heap = [\<lparr>inst_class = MaybeCls, inst_value = PInt 5, inst_state = None\<rparr>,
              \<lparr>inst_class = MaybeCls, inst_value = PInt 5, inst_state = None\<rparr>,
              \<lparr>inst_class = MaybeCls, inst_value = PInt 5, inst_state = None\<rparr>],
      next_object = 1, calls = []\<rparr>)) \<and>
   PRef 2 \<noteq> PRef 0"
  by (simp add: Monad_bind_def Functor_fmap_def Maybe_fmap_cls_def is_nothing_def
      Maybe_Nothing_sentinel_def getattr_value_def Maybe_value_def unit_of_def
      Maybe_unit_def isinstance_def Maybe_init_def new_instance_def flatten_cls_def
      Maybe_flatten_cls.simps)

end
